theory Spec2Isabelle
  imports Complex_Main "HOL-Library.Word"
begin

unbundle bit_operations_syntax

section \<open>C values\<close>

text \<open>
  The embedding follows \<^verbatim>\<open>libminijail.c\<close> on Linux/x86-64 (LP64, little endian):
  \<^verbatim>\<open>int\<close>, \<^verbatim>\<open>uid_t\<close>, \<^verbatim>\<open>gid_t\<close> and \<^verbatim>\<open>pid_t\<close> are 32-bit words, pointers and
  \<^verbatim>\<open>uint64_t\<close> are 64-bit words, a byte is a \<^typ>\<open>char\<close>. Values of type \<^verbatim>\<open>size_t\<close> that
  count bytes of objects present in memory are natural numbers: all of them live in one
  64-bit address space, so their sums stay below \<open>2 ^ 64\<close>.
\<close>

type_synonym byte = char
type_synonym addr = "64 word"
type_synonym cint = "32 word"

definition NUL :: byte where
  "NUL = CHR 0x00"

text \<open>The C string that starts at a pointer: the bytes before the first NUL.\<close>

definition cstr :: "string \<Rightarrow> string" where
  "cstr s = takeWhile (\<lambda>c. c \<noteq> NUL) s"

definition strlen :: "string \<Rightarrow> nat" where
  "strlen s = length (cstr s)"

text \<open>Arithmetic of \<^verbatim>\<open>int\<close> on mathematical integers, with the 32-bit wrap-around and
  C's truncating division written out.\<close>

definition int32 :: "int \<Rightarrow> int" where
  "int32 x = signed_take_bit 31 x"

definition uint32 :: "int \<Rightarrow> int" where
  "uint32 x = x mod 2 ^ 32"

definition uint64 :: "int \<Rightarrow> int" where
  "uint64 x = x mod 2 ^ 64"

definition c_div :: "int \<Rightarrow> int \<Rightarrow> int" where
  "c_div a b = sgn a * sgn b * (\<bar>a\<bar> div \<bar>b\<bar>)"

definition ENOMEM :: int where "ENOMEM = 12"
definition EINVAL :: int where "EINVAL = 22"
definition E2BIG :: int where "E2BIG = 7"
definition EFAULT :: int where "EFAULT = 14"

text \<open>
  A pointer is NULL or the address of an object together with the object it points to.
  The address is kept because \<^verbatim>\<open>minijail_marshal\<close> copies the raw struct, pointer values
  included, into the byte image.
\<close>

datatype 'a ptr = Null | Ptr (ptr_addr: addr) (deref: 'a)

definition ptr_word :: "'a ptr \<Rightarrow> addr" where
  "ptr_word p = (case p of Null \<Rightarrow> 0 | Ptr a _ \<Rightarrow> a)"

definition mkptr :: "addr \<Rightarrow> 'a \<Rightarrow> 'a ptr" where
  "mkptr a v = (if a = 0 then Null else Ptr a v)"

text \<open>The object a pointer points to, \<open>None\<close> for NULL.\<close>

definition ptr_val :: "'a ptr \<Rightarrow> 'a option" where
  "ptr_val p = (case p of Null \<Rightarrow> None | Ptr _ v \<Rightarrow> Some v)"

text \<open>
  The allocator is an oracle: the list of the addresses the next calls of
  \<^verbatim>\<open>malloc\<close>, \<^verbatim>\<open>calloc\<close> and \<^verbatim>\<open>strdup\<close> return, \<open>0\<close> (NULL) for a failed one; an
  exhausted list is an exhausted memory.
\<close>

type_synonym heap = "addr list"

definition alloc :: "heap \<Rightarrow> addr \<times> heap" where
  "alloc h = (case h of [] \<Rightarrow> (0, []) | a # h' \<Rightarrow> (a, h'))"

text \<open>What a call does to the process: \<^verbatim>\<open>die\<close>/\<^verbatim>\<open>pdie\<close> terminate it, a NULL or
  out-of-bounds access is a fault, otherwise the call returns a value and the new state.\<close>

datatype ('r, 's) outcome = Die | Fault | Ret 'r 's

section \<open>The policy object\<close>

record mj_flags =
  f_uid :: bool
  f_gid :: bool
  f_caps :: bool
  f_vfs :: bool
  f_pids :: bool
  f_net :: bool
  f_seccomp :: bool
  f_readonly :: bool
  f_usergroups :: bool
  f_ptrace :: bool
  f_no_new_privs :: bool
  f_seccomp_filter :: bool
  f_log_seccomp_filter :: bool
  f_chroot :: bool
  f_mount_tmp :: bool
  f_chdir :: bool
  f_stack_limit :: bool
  f_time_limit :: bool
  f_output_limit :: bool
  f_memory_limit :: bool
  f_meta_file :: bool

record binding =
  b_addr :: addr
  src :: string
  dest :: string
  writeable :: cint

text \<open>\<^verbatim>\<open>struct sock_fprog\<close>: the instruction count and the memory of the instruction array
  (\<^verbatim>\<open>sizeof(struct sock_filter)\<close> is 8).\<close>

record sock_fprog =
  fp_len :: "16 word"
  fp_filter :: "byte list"

text \<open>\<^verbatim>\<open>struct minijail\<close>. The linked list from \<^verbatim>\<open>bindings_head\<close> to \<^verbatim>\<open>bindings_tail\<close>
  is the list \<open>bindings\<close> of its nodes, each with its own address.\<close>

record minijail =
  flags :: mj_flags
  uid :: cint
  gid :: cint
  usergid :: cint
  user :: "string ptr"
  caps :: "64 word"
  initpid :: cint
  filter_len :: cint
  binding_count :: cint
  chrootdir :: "string ptr"
  chdir :: "string ptr"
  filter_prog :: "sock_fprog ptr"
  bindings :: "binding list"
  stack_limit :: cint
  time_limit :: cint
  memory_limit :: cint
  output_limit :: cint
  meta_file :: "string ptr"

definition no_flags :: mj_flags where
  "no_flags = \<lparr>f_uid = False, f_gid = False, f_caps = False, f_vfs = False, f_pids = False,
     f_net = False, f_seccomp = False, f_readonly = False, f_usergroups = False,
     f_ptrace = False, f_no_new_privs = False, f_seccomp_filter = False,
     f_log_seccomp_filter = False, f_chroot = False, f_mount_tmp = False, f_chdir = False,
     f_stack_limit = False, f_time_limit = False, f_output_limit = False,
     f_memory_limit = False, f_meta_file = False\<rparr>"

text \<open>\<^verbatim>\<open>minijail_new\<close>: the struct that a successful \<^verbatim>\<open>calloc\<close> returns.\<close>

definition minijail_new :: minijail where
  "minijail_new = \<lparr>flags = no_flags, uid = 0, gid = 0, usergid = 0, user = Null, caps = 0,
     initpid = 0, filter_len = 0, binding_count = 0, chrootdir = Null, chdir = Null,
     filter_prog = Null, bindings = [], stack_limit = 0, time_limit = 0, memory_limit = 0,
     output_limit = 0, meta_file = Null\<rparr>"

definition minijail_preenter :: "minijail \<Rightarrow> minijail" where
  "minijail_preenter j =
     j\<lparr>flags := (flags j)\<lparr>f_vfs := False, f_readonly := False, f_pids := False,
                           f_chroot := False\<rparr>\<rparr>"

definition minijail_preexec :: "minijail \<Rightarrow> minijail" where
  "minijail_preexec j =
     j\<lparr>user := Null,
       flags := no_flags\<lparr>f_vfs := f_vfs (flags j), f_readonly := f_readonly (flags j),
                         f_stack_limit := f_stack_limit (flags j),
                         f_time_limit := f_time_limit (flags j),
                         f_memory_limit := f_memory_limit (flags j),
                         f_output_limit := f_output_limit (flags j),
                         f_meta_file := f_meta_file (flags j)\<rparr>\<rparr>"

subsection \<open>The builder calls\<close>

definition minijail_change_uid :: "minijail \<Rightarrow> cint \<Rightarrow> (unit, minijail) outcome" where
  "minijail_change_uid j u =
     (if u = 0 then Die
      else Ret () (j\<lparr>uid := u, flags := (flags j)\<lparr>f_uid := True\<rparr>\<rparr>))"

definition minijail_change_gid :: "minijail \<Rightarrow> cint \<Rightarrow> (unit, minijail) outcome" where
  "minijail_change_gid j g =
     (if g = 0 then Die
      else Ret () (j\<lparr>gid := g, flags := (flags j)\<lparr>f_gid := True\<rparr>\<rparr>))"

text \<open>\<open>ppw\<close> is the answer of \<^verbatim>\<open>getpwnam_r\<close>: the uid and gid of the entry found.\<close>

definition minijail_change_user ::
  "minijail \<Rightarrow> string \<Rightarrow> heap \<Rightarrow> (cint \<times> cint) option \<Rightarrow> (int, minijail) outcome" where
  "minijail_change_user j name h ppw =
     (case alloc h of (buf, h1) \<Rightarrow>
        if buf = 0 then Ret (- ENOMEM) j
        else case ppw of
          None \<Rightarrow> Ret (- 1) j
        | Some (pw_uid, pw_gid) \<Rightarrow>
            (case minijail_change_uid j pw_uid of
               Die \<Rightarrow> Die
             | Fault \<Rightarrow> Fault
             | Ret _ j1 \<Rightarrow>
                 (case alloc h1 of (p, h2) \<Rightarrow>
                    if p = 0 then Ret (- ENOMEM) (j1\<lparr>user := Null\<rparr>)
                    else Ret 0 (j1\<lparr>user := Ptr p (cstr name), usergid := pw_gid\<rparr>))))"

text \<open>\<open>pgr\<close> is the answer of \<^verbatim>\<open>getgrnam_r\<close>: the gid of the entry found.\<close>

definition minijail_change_group ::
  "minijail \<Rightarrow> string \<Rightarrow> heap \<Rightarrow> cint option \<Rightarrow> (int, minijail) outcome" where
  "minijail_change_group j name h pgr =
     (case alloc h of (buf, h1) \<Rightarrow>
        if buf = 0 then Ret (- ENOMEM) j
        else case pgr of
          None \<Rightarrow> Ret (- 1) j
        | Some gr_gid \<Rightarrow>
            (case minijail_change_gid j gr_gid of
               Die \<Rightarrow> Die
             | Fault \<Rightarrow> Fault
             | Ret _ j1 \<Rightarrow> Ret 0 j1))"

definition minijail_use_seccomp :: "minijail \<Rightarrow> minijail" where
  "minijail_use_seccomp j = j\<lparr>flags := (flags j)\<lparr>f_seccomp := True\<rparr>\<rparr>"

definition minijail_no_new_privs :: "minijail \<Rightarrow> minijail" where
  "minijail_no_new_privs j = j\<lparr>flags := (flags j)\<lparr>f_no_new_privs := True\<rparr>\<rparr>"

definition minijail_use_seccomp_filter :: "minijail \<Rightarrow> minijail" where
  "minijail_use_seccomp_filter j = j\<lparr>flags := (flags j)\<lparr>f_seccomp_filter := True\<rparr>\<rparr>"

definition minijail_log_seccomp_filter_failures :: "minijail \<Rightarrow> minijail" where
  "minijail_log_seccomp_filter_failures j =
     j\<lparr>flags := (flags j)\<lparr>f_log_seccomp_filter := True\<rparr>\<rparr>"

definition minijail_use_caps :: "minijail \<Rightarrow> 64 word \<Rightarrow> minijail" where
  "minijail_use_caps j capmask = j\<lparr>caps := capmask, flags := (flags j)\<lparr>f_caps := True\<rparr>\<rparr>"

definition minijail_namespace_vfs :: "minijail \<Rightarrow> minijail" where
  "minijail_namespace_vfs j = j\<lparr>flags := (flags j)\<lparr>f_vfs := True\<rparr>\<rparr>"

definition minijail_namespace_pids :: "minijail \<Rightarrow> minijail" where
  "minijail_namespace_pids j =
     j\<lparr>flags := (flags j)\<lparr>f_vfs := True, f_readonly := True, f_pids := True\<rparr>\<rparr>"

definition minijail_namespace_net :: "minijail \<Rightarrow> minijail" where
  "minijail_namespace_net j = j\<lparr>flags := (flags j)\<lparr>f_net := True\<rparr>\<rparr>"

definition minijail_remount_readonly :: "minijail \<Rightarrow> minijail" where
  "minijail_remount_readonly j =
     j\<lparr>flags := (flags j)\<lparr>f_vfs := True, f_readonly := True\<rparr>\<rparr>"

definition minijail_inherit_usergroups :: "minijail \<Rightarrow> minijail" where
  "minijail_inherit_usergroups j = j\<lparr>flags := (flags j)\<lparr>f_usergroups := True\<rparr>\<rparr>"

definition minijail_disable_ptrace :: "minijail \<Rightarrow> minijail" where
  "minijail_disable_ptrace j = j\<lparr>flags := (flags j)\<lparr>f_ptrace := True\<rparr>\<rparr>"

definition minijail_enter_chroot :: "minijail \<Rightarrow> string \<Rightarrow> heap \<Rightarrow> (int, minijail) outcome" where
  "minijail_enter_chroot j dir h =
     (if chrootdir j \<noteq> Null then Ret (- EINVAL) j
      else case alloc h of (p, h1) \<Rightarrow>
        if p = 0 then Ret (- ENOMEM) (j\<lparr>chrootdir := Null\<rparr>)
        else Ret 0 (j\<lparr>chrootdir := Ptr p (cstr dir), flags := (flags j)\<lparr>f_chroot := True\<rparr>\<rparr>))"

definition minijail_mount_tmp :: "minijail \<Rightarrow> minijail" where
  "minijail_mount_tmp j = j\<lparr>flags := (flags j)\<lparr>f_mount_tmp := True\<rparr>\<rparr>"

text \<open>The directory argument may be a NULL pointer: \<open>None\<close>.\<close>

definition minijail_chroot_chdir ::
  "minijail \<Rightarrow> string option \<Rightarrow> heap \<Rightarrow> (int, minijail) outcome" where
  "minijail_chroot_chdir j dir h =
     (if chrootdir j = Null then Ret (- EINVAL) j
      else if chdir j \<noteq> Null then Ret (- EINVAL) j
      else case dir of
        None \<Rightarrow> Ret (- EINVAL) j
      | Some d \<Rightarrow>
          if take 1 d \<noteq> ''/'' then Ret (- EINVAL) j
          else case alloc h of (p, h1) \<Rightarrow>
            if p = 0 then Ret (- ENOMEM) (j\<lparr>chdir := Null\<rparr>)
            else Ret 0 (j\<lparr>chdir := Ptr p (cstr d), flags := (flags j)\<lparr>f_chdir := True\<rparr>\<rparr>))"

text \<open>\<^verbatim>\<open>minijail_bind\<close> also returns the allocator, which \<^verbatim>\<open>minijail_unmarshal\<close> goes on
  using. The node is appended at \<^verbatim>\<open>bindings_tail\<close>.\<close>

definition minijail_bind ::
  "minijail \<Rightarrow> string \<Rightarrow> string \<Rightarrow> cint \<Rightarrow> heap \<Rightarrow> (int, minijail) outcome \<times> heap" where
  "minijail_bind j s d w h =
     (if take 1 d \<noteq> ''/'' then (Ret (- EINVAL) j, h)
      else case alloc h of (b, h1) \<Rightarrow>
        if b = 0 then (Ret (- ENOMEM) j, h1)
        else case alloc h1 of (pd, h2) \<Rightarrow>
          if pd = 0 then (Ret (- ENOMEM) j, h2)
          else case alloc h2 of (ps, h3) \<Rightarrow>
            if ps = 0 then (Ret (- ENOMEM) j, h3)
            else (Ret 0 ((minijail_namespace_vfs j)
                    \<lparr>bindings := bindings j @
                        [\<lparr>b_addr = b, src = cstr s, dest = cstr d, writeable = w\<rparr>],
                     binding_count := binding_count j + 1\<rparr>), h3))"

text \<open>
  \<open>file_ok\<close> says whether \<^verbatim>\<open>fopen\<close> succeeded; \<open>compiled\<close> is the answer of the external
  \<^verbatim>\<open>compile_filter\<close>: \<open>None\<close> for a failure, else the program it stored. The result of
  \<^verbatim>\<open>malloc\<close> is not checked: \<^verbatim>\<open>compile_filter\<close> writes through it.
\<close>

definition minijail_parse_seccomp_filters ::
  "minijail \<Rightarrow> string \<Rightarrow> bool \<Rightarrow> heap \<Rightarrow> sock_fprog option \<Rightarrow> (unit, minijail) outcome" where
  "minijail_parse_seccomp_filters j path file_ok h compiled =
     (if \<not> file_ok then Die
      else case alloc h of (fprog, h1) \<Rightarrow>
        (case compiled of
           None \<Rightarrow> Die
         | Some fp \<Rightarrow>
             if fprog = 0 then Fault
             else Ret () (j\<lparr>filter_len := ucast (fp_len fp), filter_prog := Ptr fprog fp\<rparr>)))"

definition minijail_stack_limit :: "minijail \<Rightarrow> cint \<Rightarrow> minijail" where
  "minijail_stack_limit j n = j\<lparr>flags := (flags j)\<lparr>f_stack_limit := True\<rparr>, stack_limit := n\<rparr>"

definition minijail_time_limit :: "minijail \<Rightarrow> cint \<Rightarrow> minijail" where
  "minijail_time_limit j n = j\<lparr>flags := (flags j)\<lparr>f_time_limit := True\<rparr>, time_limit := n\<rparr>"

definition minijail_output_limit :: "minijail \<Rightarrow> cint \<Rightarrow> minijail" where
  "minijail_output_limit j n =
     j\<lparr>flags := (flags j)\<lparr>f_output_limit := True\<rparr>, output_limit := n\<rparr>"

definition minijail_memory_limit :: "minijail \<Rightarrow> cint \<Rightarrow> minijail" where
  "minijail_memory_limit j n =
     j\<lparr>flags := (flags j)\<lparr>f_memory_limit := True\<rparr>, memory_limit := n\<rparr>"

text \<open>\<open>fp\<close> is the pointer that \<^verbatim>\<open>fopen\<close> returned.\<close>

definition minijail_meta_file :: "minijail \<Rightarrow> string \<Rightarrow> addr \<Rightarrow> (int, minijail) outcome" where
  "minijail_meta_file j path fp =
     (let j1 = j\<lparr>flags := (flags j)\<lparr>f_meta_file := True\<rparr>, meta_file := mkptr fp (cstr path)\<rparr>
      in if fp = 0 then Ret (- 1) j1 else Ret 0 j1)"

text \<open>A builder call with its arguments and the answers of its environment.\<close>

datatype call =
    Change_uid cint
  | Change_gid cint
  | Change_user string heap "(cint \<times> cint) option"
  | Change_group string heap "cint option"
  | Use_seccomp
  | No_new_privs
  | Use_seccomp_filter
  | Log_seccomp_filter_failures
  | Use_caps "64 word"
  | Namespace_vfs
  | Namespace_pids
  | Namespace_net
  | Remount_readonly
  | Inherit_usergroups
  | Disable_ptrace
  | Enter_chroot string heap
  | Mount_tmp
  | Chroot_chdir "string option" heap
  | Bind string string cint heap
  | Parse_seccomp_filters string bool heap "sock_fprog option"
  | Stack_limit cint
  | Time_limit cint
  | Output_limit cint
  | Memory_limit cint
  | Meta_file string addr

definition void :: "(unit, minijail) outcome \<Rightarrow> (int, minijail) outcome" where
  "void r = (case r of Die \<Rightarrow> Die | Fault \<Rightarrow> Fault | Ret _ j \<Rightarrow> Ret 0 j)"

fun apply_call :: "call \<Rightarrow> minijail \<Rightarrow> (int, minijail) outcome" where
  "apply_call (Change_uid u) j = void (minijail_change_uid j u)"
| "apply_call (Change_gid g) j = void (minijail_change_gid j g)"
| "apply_call (Change_user n h ppw) j = minijail_change_user j n h ppw"
| "apply_call (Change_group n h pgr) j = minijail_change_group j n h pgr"
| "apply_call Use_seccomp j = Ret 0 (minijail_use_seccomp j)"
| "apply_call No_new_privs j = Ret 0 (minijail_no_new_privs j)"
| "apply_call Use_seccomp_filter j = Ret 0 (minijail_use_seccomp_filter j)"
| "apply_call Log_seccomp_filter_failures j = Ret 0 (minijail_log_seccomp_filter_failures j)"
| "apply_call (Use_caps m) j = Ret 0 (minijail_use_caps j m)"
| "apply_call Namespace_vfs j = Ret 0 (minijail_namespace_vfs j)"
| "apply_call Namespace_pids j = Ret 0 (minijail_namespace_pids j)"
| "apply_call Namespace_net j = Ret 0 (minijail_namespace_net j)"
| "apply_call Remount_readonly j = Ret 0 (minijail_remount_readonly j)"
| "apply_call Inherit_usergroups j = Ret 0 (minijail_inherit_usergroups j)"
| "apply_call Disable_ptrace j = Ret 0 (minijail_disable_ptrace j)"
| "apply_call (Enter_chroot d h) j = minijail_enter_chroot j d h"
| "apply_call Mount_tmp j = Ret 0 (minijail_mount_tmp j)"
| "apply_call (Chroot_chdir d h) j = minijail_chroot_chdir j d h"
| "apply_call (Bind s d w h) j = fst (minijail_bind j s d w h)"
| "apply_call (Parse_seccomp_filters p ok h c) j =
     void (minijail_parse_seccomp_filters j p ok h c)"
| "apply_call (Stack_limit n) j = Ret 0 (minijail_stack_limit j n)"
| "apply_call (Time_limit n) j = Ret 0 (minijail_time_limit j n)"
| "apply_call (Output_limit n) j = Ret 0 (minijail_output_limit j n)"
| "apply_call (Memory_limit n) j = Ret 0 (minijail_memory_limit j n)"
| "apply_call (Meta_file p fp) j = minijail_meta_file j p fp"

text \<open>A sequence of builder calls on one policy. The caller goes on after a call that
  returned an error code; after a call that ended the process there is no policy left.\<close>

fun run_calls :: "call list \<Rightarrow> minijail \<Rightarrow> minijail option" where
  "run_calls [] j = Some j"
| "run_calls (c # cs) j =
     (case apply_call c j of Ret _ j' \<Rightarrow> run_calls cs j' | _ \<Rightarrow> None)"

section \<open>Waiting for the jailed process\<close>

text \<open>The macros of \<^verbatim>\<open><sys/wait.h>\<close> (glibc) on an \<^verbatim>\<open>int\<close> status.\<close>

definition WTERMSIG :: "int \<Rightarrow> int" where
  "WTERMSIG st = st AND 0x7f"

definition WEXITSTATUS :: "int \<Rightarrow> int" where
  "WEXITSTATUS st = drop_bit 8 (st AND 0xff00)"

definition WIFEXITED :: "int \<Rightarrow> bool" where
  "WIFEXITED st = (WTERMSIG st = 0)"

definition WIFSIGNALED :: "int \<Rightarrow> bool" where
  "WIFSIGNALED st = (0 < drop_bit 1 (signed_take_bit 7 ((st AND 0x7f) + 1)))"

definition SIGSYS :: int where
  "SIGSYS = 31"

text \<open>The answer of \<^verbatim>\<open>waitpid(j->initpid, &st, 0)\<close>: it failed with an \<^verbatim>\<open>errno\<close>, or it
  stored a status.\<close>

datatype wait_result = Wait_failed int | Waited int

text \<open>\<open>err_jail\<close> is the constant \<^verbatim>\<open>MINIJAIL_ERR_JAIL\<close> of \<^verbatim>\<open>libminijail.h\<close>.\<close>

definition minijail_wait :: "int \<Rightarrow> (cint \<Rightarrow> wait_result) \<Rightarrow> minijail \<Rightarrow> int" where
  "minijail_wait err_jail waitpid j =
     (case waitpid (initpid j) of
        Wait_failed errno \<Rightarrow> - errno
      | Waited st \<Rightarrow>
          if \<not> WIFEXITED st then
            (if WIFSIGNALED st then
               (let signum = WTERMSIG st
                in if signum = SIGSYS then err_jail else 128 + signum)
             else st)
          else WEXITSTATUS st)"

text \<open>The status the kernel stores for a child that called \<^verbatim>\<open>_exit(n)\<close>, and for one
  killed by signal \<open>s\<close>, with or without a core dump.\<close>

definition status_exited :: "int \<Rightarrow> int" where
  "status_exited n = n * 256"

definition status_signaled :: "int \<Rightarrow> bool \<Rightarrow> int" where
  "status_signaled s core = s + (if core then 128 else 0)"

section \<open>The calls a process makes\<close>

text \<open>
  The system and library calls of the jailing code, as the events of a trace. The
  environment is an oracle \<open>env\<close> that answers each call with 0 for success or with the
  \<^verbatim>\<open>errno\<close> of its failure.
\<close>

datatype rlimit_resource = RLIMIT_AS | RLIMIT_FSIZE | RLIMIT_CORE | RLIMIT_STACK | RLIMIT_CPU

datatype sys =
    Unshare_newns
  | Unshare_newnet
  | Asprintf
  | Mount_bind string string
  | Mount_bind_ro string string
  | Chroot string
  | Chdir string
  | Mount_tmpfs
  | Umount string
  | Mount_proc string
  | Prctl_set_keepcaps
  | Prctl_set_securebits
  | Initgroups "string ptr" cint
  | Setgroups_none
  | Setresgid cint
  | Setresuid cint
  | Read_cap_last_cap
  | Cap_get_proc
  | Cap_set_proc "nat list"
  | Prctl_capbset_drop nat
  | Prctl_set_no_new_privs
  | Install_sigsys_handler
  | Prctl_set_seccomp_filter
  | Prctl_set_seccomp_strict
  | Setrlimit rlimit_resource int int
  | Ualarm int
  | Alarm int
  | Signal_handler int
  | Clock_gettime

text \<open>A run of a piece of code: the calls it made, and the value it returned, \<open>None\<close>
  when the process was terminated instead (\<^verbatim>\<open>die\<close>, \<^verbatim>\<open>pdie\<close>).\<close>

datatype 'a run = Run (trace: "sys list") (result: "'a option")

definition ret :: "'a \<Rightarrow> 'a run" where
  "ret x = Run [] (Some x)"

definition die :: "'a run" where
  "die = Run [] None"

definition seq :: "'a run \<Rightarrow> ('a \<Rightarrow> 'b run) \<Rightarrow> 'b run" where
  "seq m f =
     (case result m of
        None \<Rightarrow> Run (trace m) None
      | Some x \<Rightarrow> Run (trace m @ trace (f x)) (result (f x)))"

text \<open>A call whose return value the code reads, and a call whose failure ends the
  process.\<close>

definition sysc :: "(sys \<Rightarrow> int) \<Rightarrow> sys \<Rightarrow> int run" where
  "sysc env e = Run [e] (Some (env e))"

definition must :: "(sys \<Rightarrow> int) \<Rightarrow> sys \<Rightarrow> unit run" where
  "must env e = Run [e] (if env e = 0 then Some () else None)"

definition whenever :: "bool \<Rightarrow> unit run \<Rightarrow> unit run" where
  "whenever b m = (if b then m else ret ())"

section \<open>Resource limits and the alarm of init\<close>

definition SIGALRM :: int where "SIGALRM = 14"
definition SIGTERM :: int where "SIGTERM = 15"

text \<open>An \<^verbatim>\<open>int\<close> field converted to \<^verbatim>\<open>rlim_t\<close> (unsigned, 64 bits).\<close>

definition rlim :: "cint \<Rightarrow> int" where
  "rlim v = uint64 (sint v)"

definition setup_limits :: "(sys \<Rightarrow> int) \<Rightarrow> minijail \<Rightarrow> int run" where
  "setup_limits env j =
     seq (if f_memory_limit (flags j)
          then sysc env (Setrlimit RLIMIT_AS (rlim (memory_limit j)) (rlim (memory_limit j)))
          else ret 0) (\<lambda>r1.
     if r1 \<noteq> 0 then ret (- 1) else
     seq (if f_output_limit (flags j)
          then seq (sysc env (Setrlimit RLIMIT_FSIZE (rlim (output_limit j))
                                (rlim (output_limit j)))) (\<lambda>r.
               if r \<noteq> 0 then ret r else sysc env (Setrlimit RLIMIT_CORE 0 0))
          else ret 0) (\<lambda>r2.
     if r2 \<noteq> 0 then ret (- 1) else
     seq (if f_stack_limit (flags j)
          then sysc env (Setrlimit RLIMIT_STACK (rlim (stack_limit j)) (rlim (stack_limit j)))
          else ret 0) (\<lambda>r3.
     if r3 \<noteq> 0 then ret (- 1) else
     if f_time_limit (flags j) then
       (let cur = uint64 (c_div (int32 (999 + sint (time_limit j))) 1000);
            mx = uint64 (cur + 1)
        in seq (sysc env (Setrlimit RLIMIT_CPU cur mx)) (\<lambda>r4.
           if r4 \<noteq> 0 then ret (- 1) else
           seq (sysc env (Ualarm (uint32 (int32 (sint (time_limit j) * 1000))))) (\<lambda>_.
           ret 0)))
     else ret 0)))"

text \<open>The calls of \<^verbatim>\<open>init\<close> before it enters its \<^verbatim>\<open>wait3\<close> loop: the clock for the
  meta file, the alarm that backs the time limit up, and the \<^verbatim>\<open>SIGTERM\<close> handler.\<close>

definition init_arming :: "minijail \<Rightarrow> sys list" where
  "init_arming j =
     (if f_meta_file (flags j) then [Clock_gettime] else []) @
     (if f_time_limit (flags j)
      then [Signal_handler SIGALRM,
            Alarm (uint32 (c_div (int32 (sint (time_limit j) + 1999)) 1000))]
      else []) @
     [Signal_handler SIGTERM]"

section \<open>Entering the jail\<close>

text \<open>The string that \<^verbatim>\<open>%s\<close> prints for a pointer (glibc prints a NULL pointer as
  \<^verbatim>\<open>(null)\<close>).\<close>

definition ptr_str :: "string ptr \<Rightarrow> string" where
  "ptr_str p = (case p of Null \<Rightarrow> ''(null)'' | Ptr _ s \<Rightarrow> s)"

text \<open>\<^verbatim>\<open>bind_one\<close> walks the list from the node it is given; \<^verbatim>\<open>enter_chroot\<close> calls it
  only when the list is not empty.\<close>

fun bind_one :: "(sys \<Rightarrow> int) \<Rightarrow> minijail \<Rightarrow> binding list \<Rightarrow> int run" where
  "bind_one env j [] = ret 0"
| "bind_one env j (b # bs) =
     seq (sysc env Asprintf) (\<lambda>r.
     if r \<noteq> 0 then ret (- ENOMEM) else
     seq (must env (Mount_bind (src b) (ptr_str (chrootdir j) @ dest b))) (\<lambda>_.
     seq (whenever (writeable b = 0)
            (must env (Mount_bind_ro (src b) (ptr_str (chrootdir j) @ dest b)))) (\<lambda>_.
     if bs \<noteq> [] then bind_one env j bs else ret 0)))"

definition enter_chroot :: "(sys \<Rightarrow> int) \<Rightarrow> minijail \<Rightarrow> int run" where
  "enter_chroot env j =
     seq (bind_one env j (bindings j)) (\<lambda>r.
     if r \<noteq> 0 then ret r else
     seq (sysc env (Chroot (ptr_str (chrootdir j)))) (\<lambda>r.
     if r \<noteq> 0 then ret (- r) else
     seq (sysc env (Chdir (case chdir j of Null \<Rightarrow> ''/'' | Ptr _ s \<Rightarrow> s))) (\<lambda>r.
     if r \<noteq> 0 then ret (- r) else ret 0)))"

definition mount_tmp :: "(sys \<Rightarrow> int) \<Rightarrow> int run" where
  "mount_tmp env = sysc env Mount_tmpfs"

definition remount_readonly :: "(sys \<Rightarrow> int) \<Rightarrow> minijail \<Rightarrow> int run" where
  "remount_readonly env j =
     seq (sysc env Asprintf) (\<lambda>r.
     if r \<noteq> 0 then ret (- ENOMEM) else
     seq (sysc env (Umount ''/proc/sys/fs/binfmt_misc'')) (\<lambda>_.
     seq (sysc env (Umount ''/proc'')) (\<lambda>r.
     if r \<noteq> 0 then ret (- r) else
     seq (sysc env (Mount_proc
            ((case chrootdir j of Null \<Rightarrow> '''' | Ptr _ s \<Rightarrow> s) @ ''/proc''))) (\<lambda>r.
     if r \<noteq> 0 then ret (- r) else ret 0))))"

definition drop_ugid :: "(sys \<Rightarrow> int) \<Rightarrow> minijail \<Rightarrow> unit run" where
  "drop_ugid env j =
     seq (if f_usergroups (flags j) then must env (Initgroups (user j) (usergid j))
          else whenever (uid j \<noteq> 0 \<or> gid j \<noteq> 0) (must env Setgroups_none)) (\<lambda>_.
     seq (whenever (f_gid (flags j)) (must env (Setresgid (gid j)))) (\<lambda>_.
     whenever (f_uid (flags j)) (must env (Setresuid (uid j)))))"

definition CAP_SETPCAP :: nat where
  "CAP_SETPCAP = 8"

text \<open>
  \<^verbatim>\<open>run_cap_valid\<close>: \<open>lc\<close> is its static variable \<^verbatim>\<open>last_cap\<close>, read from
  \<^verbatim>\<open>/proc/sys/kernel/cap_last_cap\<close> (whose content is \<open>kcap\<close>) as long as it is 0. It
  returns its answer and the new value of the static variable.
\<close>

definition run_cap_valid :: "(sys \<Rightarrow> int) \<Rightarrow> nat \<Rightarrow> nat \<Rightarrow> nat \<Rightarrow> (bool \<times> nat) run" where
  "run_cap_valid env kcap lc cap =
     (if lc = 0 then seq (must env Read_cap_last_cap) (\<lambda>_. ret (cap \<le> kcap, kcap))
      else ret (cap \<le> lc, lc))"

text \<open>The first loop of \<^verbatim>\<open>drop_caps\<close>: the capabilities raised in the three sets, in
  \<open>acc\<close>.\<close>

function cap_keep_loop ::
  "(sys \<Rightarrow> int) \<Rightarrow> nat \<Rightarrow> minijail \<Rightarrow> nat \<Rightarrow> nat \<Rightarrow> nat list \<Rightarrow> (nat list \<times> nat) run" where
  "cap_keep_loop env kcap j i lc acc =
     (if i < 64 then
        seq (run_cap_valid env kcap lc i) (\<lambda>v.
        if fst v then
          cap_keep_loop env kcap j (i + 1) (snd v)
            (if i \<noteq> CAP_SETPCAP \<and> \<not> bit (caps j) i then acc else acc @ [i])
        else ret (acc, snd v))
      else ret (acc, lc))"
  by pat_completeness auto
termination
  by (relation "measure (\<lambda>(env, kcap, j, i, lc, acc). 64 - i)") auto

text \<open>The second loop: the capabilities dropped from the bounding set.\<close>

function cap_bset_loop ::
  "(sys \<Rightarrow> int) \<Rightarrow> nat \<Rightarrow> minijail \<Rightarrow> nat \<Rightarrow> nat \<Rightarrow> nat run" where
  "cap_bset_loop env kcap j i lc =
     (if i < 64 then
        seq (run_cap_valid env kcap lc i) (\<lambda>v.
        if fst v then
          seq (whenever (\<not> bit (caps j) i) (must env (Prctl_capbset_drop i))) (\<lambda>_.
          cap_bset_loop env kcap j (i + 1) (snd v))
        else ret (snd v))
      else ret lc)"
  by pat_completeness auto
termination
  by (relation "measure (\<lambda>(env, kcap, j, i, lc). 64 - i)") auto

text \<open>\<^verbatim>\<open>drop_caps\<close>. The calls of \<^verbatim>\<open>cap_clear_flag\<close> and \<^verbatim>\<open>cap_set_flag\<close> work on the
  local copy of the capability state and cannot fail on the arguments they get.\<close>

definition drop_caps :: "(sys \<Rightarrow> int) \<Rightarrow> nat \<Rightarrow> minijail \<Rightarrow> unit run" where
  "drop_caps env kcap j =
     seq (must env Cap_get_proc) (\<lambda>_.
     seq (cap_keep_loop env kcap j 0 0 []) (\<lambda>kl.
     seq (must env (Cap_set_proc (fst kl))) (\<lambda>_.
     seq (cap_bset_loop env kcap j 0 (snd kl)) (\<lambda>_.
     must env (Cap_set_proc
       (if \<not> bit (caps j) CAP_SETPCAP then filter (\<lambda>c. c \<noteq> CAP_SETPCAP) (fst kl)
        else fst kl))))))"

definition set_seccomp_filter :: "(sys \<Rightarrow> int) \<Rightarrow> minijail \<Rightarrow> unit run" where
  "set_seccomp_filter env j =
     seq (whenever (f_no_new_privs (flags j)) (must env Prctl_set_no_new_privs)) (\<lambda>_.
     seq (whenever (f_seccomp_filter (flags j) \<and> f_log_seccomp_filter (flags j))
            (must env Install_sigsys_handler)) (\<lambda>_.
     whenever (f_seccomp_filter (flags j)) (must env Prctl_set_seccomp_filter)))"

text \<open>A call that returns an error code which the caller answers with \<^verbatim>\<open>pdie\<close>.\<close>

definition or_pdie :: "int run \<Rightarrow> unit run" where
  "or_pdie m = seq m (\<lambda>r. if r \<noteq> 0 then die else ret ())"

definition minijail_enter :: "(sys \<Rightarrow> int) \<Rightarrow> nat \<Rightarrow> minijail \<Rightarrow> unit run" where
  "minijail_enter env kcap j =
     (if f_pids (flags j) then die
      else if f_usergroups (flags j) \<and> user j = Null then die
      else
        seq (whenever (f_vfs (flags j)) (must env Unshare_newns)) (\<lambda>_.
        seq (whenever (f_net (flags j)) (must env Unshare_newnet)) (\<lambda>_.
        seq (whenever (f_chroot (flags j)) (or_pdie (enter_chroot env j))) (\<lambda>_.
        seq (whenever (f_chroot (flags j) \<and> f_mount_tmp (flags j))
               (or_pdie (mount_tmp env))) (\<lambda>_.
        seq (whenever (f_readonly (flags j)) (or_pdie (remount_readonly env j))) (\<lambda>_.
        seq (whenever (f_caps (flags j))
               (seq (must env Prctl_set_keepcaps) (\<lambda>_. must env Prctl_set_securebits))) (\<lambda>_.
        seq (if f_no_new_privs (flags j) then
               seq (drop_ugid env j) (\<lambda>_.
               seq (whenever (f_caps (flags j)) (drop_caps env kcap j)) (\<lambda>_.
               set_seccomp_filter env j))
             else
               seq (set_seccomp_filter env j) (\<lambda>_.
               seq (drop_ugid env j) (\<lambda>_.
               whenever (f_caps (flags j)) (drop_caps env kcap j)))) (\<lambda>_.
        whenever (f_seccomp (flags j)) (must env Prctl_set_seccomp_strict)))))))))"

text \<open>The calls that change the identity of the process, and those that reduce its
  capabilities.\<close>

fun identity_call :: "sys \<Rightarrow> bool" where
  "identity_call (Initgroups _ _) = True"
| "identity_call Setgroups_none = True"
| "identity_call (Setresgid _) = True"
| "identity_call (Setresuid _) = True"
| "identity_call _ = False"

fun capability_call :: "sys \<Rightarrow> bool" where
  "capability_call (Cap_set_proc _) = True"
| "capability_call (Prctl_capbset_drop _) = True"
| "capability_call _ = False"

definition privilege_drop :: "sys \<Rightarrow> bool" where
  "privilege_drop e \<longleftrightarrow> identity_call e \<or> capability_call e"

section \<open>The marshaller\<close>

subsection \<open>The bytes of the struct\<close>

text \<open>Little-endian bytes of an unsigned value, and back.\<close>

fun le_bytes :: "nat \<Rightarrow> nat \<Rightarrow> byte list" where
  "le_bytes 0 v = []"
| "le_bytes (Suc n) v = char_of (v mod 256) # le_bytes n (v div 256)"

fun le_val :: "byte list \<Rightarrow> nat" where
  "le_val [] = 0"
| "le_val (b # bs) = of_char b + 256 * le_val bs"

definition le32 :: "cint \<Rightarrow> byte list" where
  "le32 w = le_bytes 4 (unat w)"

definition le64 :: "64 word \<Rightarrow> byte list" where
  "le64 w = le_bytes 8 (unat w)"

definition rd32 :: "nat \<Rightarrow> byte list \<Rightarrow> cint" where
  "rd32 off bs = of_nat (le_val (take 4 (drop off bs)))"

definition rd64 :: "nat \<Rightarrow> byte list \<Rightarrow> 64 word" where
  "rd64 off bs = of_nat (le_val (take 8 (drop off bs)))"

text \<open>The 21 one-bit fields of \<^verbatim>\<open>flags\<close> fill the low bits of one 32-bit unit, the first
  field in the lowest bit.\<close>

definition flag_bytes :: "mj_flags \<Rightarrow> byte list" where
  "flag_bytes f =
     [Char (f_uid f) (f_gid f) (f_caps f) (f_vfs f) (f_pids f) (f_net f) (f_seccomp f)
        (f_readonly f),
      Char (f_usergroups f) (f_ptrace f) (f_no_new_privs f) (f_seccomp_filter f)
        (f_log_seccomp_filter f) (f_chroot f) (f_mount_tmp f) (f_chdir f),
      Char (f_stack_limit f) (f_time_limit f) (f_output_limit f) (f_memory_limit f)
        (f_meta_file f) False False False,
      NUL]"

definition rd_flags :: "byte list \<Rightarrow> mj_flags" where
  "rd_flags bs =
     (let a = bs ! 0; b = bs ! 1; c = bs ! 2
      in \<lparr>f_uid = digit0 a, f_gid = digit1 a, f_caps = digit2 a, f_vfs = digit3 a,
          f_pids = digit4 a, f_net = digit5 a, f_seccomp = digit6 a, f_readonly = digit7 a,
          f_usergroups = digit0 b, f_ptrace = digit1 b, f_no_new_privs = digit2 b,
          f_seccomp_filter = digit3 b, f_log_seccomp_filter = digit4 b, f_chroot = digit5 b,
          f_mount_tmp = digit6 b, f_chdir = digit7 b, f_stack_limit = digit0 c,
          f_time_limit = digit1 c, f_output_limit = digit2 c, f_memory_limit = digit3 c,
          f_meta_file = digit4 c\<rparr>)"

definition bindings_head :: "minijail \<Rightarrow> addr" where
  "bindings_head j = (case bindings j of [] \<Rightarrow> 0 | b # _ \<Rightarrow> b_addr b)"

definition bindings_tail :: "minijail \<Rightarrow> addr" where
  "bindings_tail j = (if bindings j = [] then 0 else b_addr (last (bindings j)))"

definition sizeof_minijail :: nat where
  "sizeof_minijail = 112"

text \<open>
  The memory of \<^verbatim>\<open>struct minijail\<close>, field by field at the offsets of the x86-64 ABI:
  flags 0, uid 4, gid 8, usergid 12, user 16, caps 24, initpid 32, filter_len 36,
  binding_count 40, (padding 44), chrootdir 48, chdir 56, filter_prog 64,
  bindings_head 72, bindings_tail 80, stack_limit 88, time_limit 92, memory_limit 96,
  output_limit 100, meta_file 104. The struct comes from \<^verbatim>\<open>calloc\<close>: its padding is 0.
\<close>

definition struct_image :: "minijail \<Rightarrow> byte list" where
  "struct_image j =
     flag_bytes (flags j) @ le32 (uid j) @ le32 (gid j) @ le32 (usergid j) @
     le64 (ptr_word (user j)) @ le64 (caps j) @ le32 (initpid j) @ le32 (filter_len j) @
     le32 (binding_count j) @ replicate 4 NUL @ le64 (ptr_word (chrootdir j)) @
     le64 (ptr_word (chdir j)) @ le64 (ptr_word (filter_prog j)) @ le64 (bindings_head j) @
     le64 (bindings_tail j) @ le32 (stack_limit j) @ le32 (time_limit j) @
     le32 (memory_limit j) @ le32 (output_limit j) @ le64 (ptr_word (meta_file j))"

subsection \<open>Marshalling\<close>

text \<open>\<^verbatim>\<open>struct marshal_state\<close>; \<open>buf\<close> holds the bytes written to the caller's buffer so
  far, from its start to the write pointer.\<close>

record marshal_state =
  available :: nat
  total :: nat
  buf :: "byte list"

definition marshal_state_init :: "nat \<Rightarrow> marshal_state" where
  "marshal_state_init avail = \<lparr>available = avail, total = 0, buf = []\<rparr>"

text \<open>\<open>mem\<close> is the memory at the source pointer, \<open>n\<close> the length asked for.\<close>

definition marshal_append :: "marshal_state \<Rightarrow> byte list \<Rightarrow> nat \<Rightarrow> marshal_state" where
  "marshal_append st mem n =
     (let copy_len = min (available st) n;
          st1 = (if copy_len \<noteq> 0
                 then st\<lparr>buf := buf st @ take copy_len mem,
                         available := available st - copy_len\<rparr>
                 else st)
      in st1\<lparr>total := total st1 + n\<rparr>)"

text \<open>The memory of a C string with its terminator.\<close>

definition str_mem :: "string \<Rightarrow> byte list" where
  "str_mem s = cstr s @ [NUL]"

definition marshal_str :: "marshal_state \<Rightarrow> string ptr \<Rightarrow> marshal_state" where
  "marshal_str st p =
     (case p of Null \<Rightarrow> st | Ptr _ s \<Rightarrow> marshal_append st (str_mem s) (strlen s + 1))"

definition marshal_binding :: "marshal_state \<Rightarrow> binding \<Rightarrow> marshal_state" where
  "marshal_binding st b =
     marshal_append
       (marshal_append
          (marshal_append st (str_mem (src b)) (strlen (src b) + 1))
          (str_mem (dest b)) (strlen (dest b) + 1))
       (le32 (writeable b)) 4"

definition minijail_marshal_helper :: "marshal_state \<Rightarrow> minijail \<Rightarrow> marshal_state" where
  "minijail_marshal_helper st j =
     (let st1 = marshal_append st (struct_image j) sizeof_minijail;
          st2 = marshal_str st1 (user j);
          st3 = marshal_str st2 (chrootdir j);
          st4 = marshal_str st3 (chdir j);
          st5 = (case filter_prog j of
                   Null \<Rightarrow> st4
                 | Ptr _ fp \<Rightarrow>
                     if f_seccomp_filter (flags j)
                     then marshal_append st4 (fp_filter fp) (unat (fp_len fp) * 8)
                     else st4)
      in foldl marshal_binding st5 (bindings j))"

definition minijail_size :: "minijail \<Rightarrow> nat" where
  "minijail_size j = total (minijail_marshal_helper (marshal_state_init 0) j)"

text \<open>\<^verbatim>\<open>minijail_marshal\<close> returns the content of the buffer and its \<^verbatim>\<open>int\<close> result.\<close>

definition minijail_marshal :: "minijail \<Rightarrow> nat \<Rightarrow> byte list \<times> int" where
  "minijail_marshal j avail =
     (let st = minijail_marshal_helper (marshal_state_init avail) j
      in (buf st, if total st > avail then 1 else 0))"

subsection \<open>Unmarshalling\<close>

text \<open>What a function of the marshaller gives: the error code it returned, a crash (a
  write through a NULL pointer), or its result.\<close>

datatype 'a res = Failed int | Crashed | Ok 'a

definition res_bind :: "'a res \<Rightarrow> ('a \<Rightarrow> 'b res) \<Rightarrow> 'b res" where
  "res_bind r f = (case r of Failed e \<Rightarrow> Failed e | Crashed \<Rightarrow> Crashed | Ok x \<Rightarrow> f x)"

text \<open>\<^verbatim>\<open>consumebytes\<close> and \<^verbatim>\<open>consumestr\<close> return the bytes consumed and the rest of the
  buffer, \<open>None\<close> for NULL.\<close>

definition consumebytes :: "nat \<Rightarrow> byte list \<Rightarrow> (byte list \<times> byte list) option" where
  "consumebytes n b = (if n > length b then None else Some (take n b, drop n b))"

definition consumestr :: "byte list \<Rightarrow> (byte list \<times> byte list) option" where
  "consumestr b =
     (let len = strlen b
      in if len = length b then None else consumebytes (len + 1) b)"

definition USHRT_MAX :: nat where
  "USHRT_MAX = 65535"

definition SIZE_MAX :: nat where
  "SIZE_MAX = 2 ^ 64 - 1"

text \<open>
  One of the three optional strings: \<open>stale\<close> is the pointer value copied from the
  image, which only says whether the string follows. \<open>missing\<close> is what happens at the
  label the code jumps to when \<^verbatim>\<open>consumestr\<close> finds no string: the field still holds the
  stale pointer then, and the label \<^verbatim>\<open>bad_chdir\<close> frees \<^verbatim>\<open>j->chdir\<close>, where
  \<^verbatim>\<open>clear_pointers\<close> and \<^verbatim>\<open>bad_chrootdir\<close> free none of the fields that are stale. When
  \<^verbatim>\<open>strdup\<close> fails the field is NULL and nothing stale is freed.
\<close>

definition um_string ::
  "addr \<Rightarrow> byte list \<Rightarrow> heap \<Rightarrow> (string ptr \<times> byte list \<times> heap) res \<Rightarrow>
     (string ptr \<times> byte list \<times> heap) res" where
  "um_string stale b h missing =
     (if stale = 0 then Ok (Null, b, h)
      else case consumestr b of
        None \<Rightarrow> missing
      | Some (s, b') \<Rightarrow>
          (case alloc h of (p, h') \<Rightarrow>
             if p = 0 then Failed (- EINVAL) else Ok (Ptr p (cstr s), b', h')))"

text \<open>The filter program. Neither \<^verbatim>\<open>malloc\<close> is checked.\<close>

definition um_filter ::
  "mj_flags \<Rightarrow> cint \<Rightarrow> byte list \<Rightarrow> heap \<Rightarrow> (sock_fprog ptr \<times> byte list \<times> heap) res" where
  "um_filter fl flen b h =
     (if f_seccomp_filter fl \<and> 0 < sint flen then
        (let ninstrs = nat (sint flen)
         in if ninstrs > SIZE_MAX div 8 \<or> ninstrs > USHRT_MAX then Failed (- EINVAL)
            else case consumebytes (ninstrs * 8) b of
              None \<Rightarrow> Failed (- EINVAL)
            | Some (program, b') \<Rightarrow>
                (case alloc h of (fp, h1) \<Rightarrow>
                   if fp = 0 then Crashed
                   else case alloc h1 of (arr, h2) \<Rightarrow>
                     if arr = 0 then Crashed
                     else Ok (Ptr fp \<lparr>fp_len = of_nat ninstrs, fp_filter = program\<rparr>,
                              b', h2)))
      else Ok (Null, b, h))"

text \<open>The loop over the bindings, \<open>n\<close> iterations left.\<close>

fun um_bindings :: "nat \<Rightarrow> minijail \<Rightarrow> byte list \<Rightarrow> heap \<Rightarrow> minijail res" where
  "um_bindings 0 j b h = Ok j"
| "um_bindings (Suc n) j b h =
     (case consumestr b of
        None \<Rightarrow> Failed (- EINVAL)
      | Some (s, b1) \<Rightarrow>
          (case consumestr b1 of
             None \<Rightarrow> Failed (- EINVAL)
           | Some (d, b2) \<Rightarrow>
               (case consumebytes 4 b2 of
                  None \<Rightarrow> Failed (- EINVAL)
                | Some (w, b3) \<Rightarrow>
                    (case minijail_bind j s d (rd32 0 w) h of
                       (Ret r j', h') \<Rightarrow>
                         if r \<noteq> 0 then Failed (- EINVAL) else um_bindings n j' b3 h'
                     | (_, h') \<Rightarrow> Crashed))))"

text \<open>
  \<^verbatim>\<open>minijail_unmarshal\<close>. The struct is copied from the first 112 bytes; the pointer
  values in it are stale: the three string pointers and \<^verbatim>\<open>meta_file\<close> are read as
  presence marks only, the other three are cleared. On an error the struct is left
  half filled and the caller drops it: only the error code is returned.
\<close>

definition minijail_unmarshal :: "byte list \<Rightarrow> heap \<Rightarrow> minijail res" where
  "minijail_unmarshal serialized h =
     (if length serialized < sizeof_minijail then Failed (- EINVAL)
      else
        (let hdr = take sizeof_minijail serialized;
             b = drop sizeof_minijail serialized
         in res_bind (um_string (rd64 16 hdr) b h (Failed (- EINVAL))) (\<lambda>(usr, b1, h1).
            res_bind (um_string (rd64 48 hdr) b1 h1 (Failed (- EINVAL))) (\<lambda>(crd, b2, h2).
            res_bind (um_string (rd64 56 hdr) b2 h2 Crashed) (\<lambda>(cd, b3, h3).
            res_bind (um_filter (rd_flags hdr) (rd32 36 hdr) b3 h3) (\<lambda>(fp, b4, h4).
            um_bindings (nat (sint (rd32 40 hdr)))
              \<lparr>flags = rd_flags hdr, uid = rd32 4 hdr, gid = rd32 8 hdr,
               usergid = rd32 12 hdr, user = usr, caps = rd64 24 hdr,
               initpid = rd32 32 hdr, filter_len = rd32 36 hdr, binding_count = 0,
               chrootdir = crd, chdir = cd, filter_prog = fp, bindings = [],
               stack_limit = rd32 88 hdr, time_limit = rd32 92 hdr,
               memory_limit = rd32 96 hdr, output_limit = rd32 100 hdr,
               meta_file = Null\<rparr>
              b4 h4))))))"

subsection \<open>The policy pipe\<close>

text \<open>
  The read end of the pipe is the list of the bytes in it: \<^verbatim>\<open>read\<close> takes up to \<open>n\<close>
  of them. The write end is the bytes written so far and the room left: \<^verbatim>\<open>write\<close>
  returns the number of bytes it took, or \<open>-1\<close> when there is no room.
\<close>

definition read_fd :: "byte list \<Rightarrow> nat \<Rightarrow> byte list \<times> byte list" where
  "read_fd p n = (take n p, drop n p)"

definition write_fd :: "byte list \<times> nat \<Rightarrow> byte list \<Rightarrow> int \<times> (byte list \<times> nat)" where
  "write_fd p bs =
     (case p of (content, room) \<Rightarrow>
        if room = 0 \<and> bs \<noteq> [] then (- 1, p)
        else (int (min room (length bs)),
              (content @ take room bs, room - min room (length bs))))"

text \<open>\<^verbatim>\<open>minijail_from_fd\<close> returns what \<^verbatim>\<open>minijail_unmarshal\<close> gave, or its own error, and
  the bytes it left in the pipe.\<close>

definition minijail_from_fd :: "byte list \<Rightarrow> heap \<Rightarrow> minijail res \<times> byte list" where
  "minijail_from_fd p h =
     (case read_fd p 8 of (szb, p1) \<Rightarrow>
        if length szb \<noteq> 8 then (Failed (- EINVAL), p1)
        else
          (let sz = le_val szb
           in if sz > USHRT_MAX then (Failed (- E2BIG), p1)
              else case alloc h of (b, h1) \<Rightarrow>
                if b = 0 then (Failed (- ENOMEM), p1)
                else case read_fd p1 sz of (body, p2) \<Rightarrow>
                  if length body \<noteq> sz then (Failed (- EINVAL), p2)
                  else (minijail_unmarshal body h1, p2)))"

text \<open>\<^verbatim>\<open>minijail_to_fd\<close>; the result of its \<^verbatim>\<open>malloc\<close> is not checked. The size is
  written as the 8 bytes of a \<^verbatim>\<open>size_t\<close>.\<close>

definition minijail_to_fd ::
  "minijail \<Rightarrow> heap \<Rightarrow> byte list \<times> nat \<Rightarrow> unit res \<times> (byte list \<times> nat)" where
  "minijail_to_fd j h p =
     (let sz = minijail_size j
      in if sz = 0 then (Failed (- EINVAL), p)
         else case alloc h of (b, h1) \<Rightarrow>
           if b = 0 then (Crashed, p)
           else case minijail_marshal j sz of (img, r) \<Rightarrow>
             if r \<noteq> 0 then (Failed r, p)
             else case write_fd p (le_bytes 8 sz) of (written, p1) \<Rightarrow>
               if written \<noteq> 8 then (Failed (- EFAULT), p1)
               else case write_fd p1 img of (written2, p2) \<Rightarrow>
                 if written2 < 0 \<or> written2 \<noteq> int sz then (Failed (- EFAULT), p2)
                 else (Ok (), p2))"

section \<open>The path resolver\<close>

text \<open>
  The caller's buffer is the list of the bytes of its array, whose length is
  \<^verbatim>\<open>buffer_len\<close>. A write inside the array replaces bytes in place; a read or a write
  outside it is a fault (\<open>None\<close>).
\<close>

definition poke :: "byte list \<Rightarrow> nat \<Rightarrow> byte list \<Rightarrow> byte list option" where
  "poke b off bs =
     (if off + length bs \<le> length b
      then Some (take off b @ bs @ drop (off + length bs) b) else None)"

text \<open>The \<open>n\<close> bytes at \<open>off\<close>, read inside the array.\<close>

definition peek :: "byte list \<Rightarrow> nat \<Rightarrow> nat \<Rightarrow> byte list option" where
  "peek b off n = (if off + n \<le> length b then Some (take n (drop off b)) else None)"

text \<open>\<^verbatim>\<open>strlen\<close> of the buffer: it must find a NUL inside the array.\<close>

definition buf_strlen :: "byte list \<Rightarrow> nat option" where
  "buf_strlen b = (if NUL \<in> set b then Some (strlen b) else None)"

text \<open>The \<open>n\<close> bytes that \<^verbatim>\<open>strncpy(dst, s, n)\<close> writes: the string, cut or padded with NUL.\<close>

definition strncpy_bytes :: "string \<Rightarrow> nat \<Rightarrow> byte list" where
  "strncpy_bytes s n = take n (cstr s) @ replicate (n - strlen s) NUL"

text \<open>The bytes that \<^verbatim>\<open>snprintf(dst, n, "/%s", s)\<close> writes.\<close>

definition snprintf_bytes :: "nat \<Rightarrow> string \<Rightarrow> byte list" where
  "snprintf_bytes n s = (if n = 0 then [] else take (n - 1) (CHR ''/'' # cstr s) @ [NUL])"

text \<open>The first character of a C string (the terminator when it is empty).\<close>

definition first_char :: "string \<Rightarrow> byte" where
  "first_char s = hd (cstr s @ [NUL])"

text \<open>\<^verbatim>\<open>concat_path\<close>: \<open>path\<close> is \<open>None\<close> for a NULL pointer. It returns its result and the
  buffer.\<close>

definition concat_path ::
  "byte list \<Rightarrow> nat \<Rightarrow> string option \<Rightarrow> (int \<times> byte list) option" where
  "concat_path b blen path =
     (case path of
        None \<Rightarrow> Some (1, b)
      | Some p \<Rightarrow>
          (case buf_strlen b of
             None \<Rightarrow> None
           | Some len \<Rightarrow>
               (let pathlen = strlen p
                in if len \<noteq> 0 \<and> b ! (len - 1) \<noteq> CHR ''/'' \<and> first_char p \<noteq> CHR ''/'' then
                     (if len + pathlen + 1 \<ge> blen then Some (- 1, b)
                      else map_option (Pair 0)
                             (poke b len (snprintf_bytes (blen - len - 1) p)))
                   else if len \<noteq> 0 \<and> b ! (len - 1) = CHR ''/'' \<and> first_char p = CHR ''/'' then
                     (if len + pathlen \<ge> blen then Some (- 1, b)
                      else map_option (Pair 0)
                             (poke b len (strncpy_bytes (drop 1 (cstr p)) (blen - len))))
                   else
                     (if len + pathlen \<ge> blen then Some (- 1, b)
                      else map_option (Pair 0)
                             (poke b len (strncpy_bytes p (blen - len)))))))"

text \<open>\<^verbatim>\<open>strncmp(a, b, n) == 0\<close>.\<close>

definition strncmp_eq :: "string \<Rightarrow> string \<Rightarrow> nat \<Rightarrow> bool" where
  "strncmp_eq a b n \<longleftrightarrow> take n (cstr a) = take n (cstr b)"

text \<open>One turn of the loop over the bindings: \<open>best\<close> and \<open>best_len\<close>.\<close>

definition pick_binding ::
  "byte list \<Rightarrow> binding option \<times> nat \<Rightarrow> binding \<Rightarrow> binding option \<times> nat" where
  "pick_binding b acc cur =
     (let mount_len = strlen (dest cur)
      in if strncmp_eq (dest cur) b mount_len \<and> mount_len > snd acc
         then (Some cur, mount_len) else acc)"

text \<open>Subtraction and addition of \<^verbatim>\<open>size_t\<close>.\<close>

definition size_sub :: "nat \<Rightarrow> nat \<Rightarrow> nat" where
  "size_sub a b = (if b \<le> a then a - b else 2 ^ 64 + a - b)"

definition size_add :: "nat \<Rightarrow> nat \<Rightarrow> nat" where
  "size_add a b = (a + b) mod 2 ^ 64"

text \<open>\<^verbatim>\<open>getcwd(buffer, buffer_len)\<close>: \<open>cwd\<close> is the working directory, \<open>None\<close> when the call
  fails. It returns whether it succeeded and the buffer.\<close>

definition getcwd :: "string option \<Rightarrow> byte list \<Rightarrow> bool \<times> byte list" where
  "getcwd cwd b =
     (case cwd of
        None \<Rightarrow> (False, b)
      | Some d \<Rightarrow>
          (case poke b 0 (str_mem d) of None \<Rightarrow> (False, b) | Some b' \<Rightarrow> (True, b')))"

text \<open>
  The first part of \<^verbatim>\<open>minijail_get_path\<close>, up to the call of \<^verbatim>\<open>lstat\<close>: the absolute
  path, the binding with the longest match, and the replacement of the matched prefix.
  It returns 1 with the buffer where the function returns 1, and 0 with the buffer it
  hands to \<^verbatim>\<open>lstat\<close>.
\<close>

definition replace_prefix ::
  "minijail \<Rightarrow> string option \<Rightarrow> byte list \<Rightarrow> string \<Rightarrow> (int \<times> byte list) option" where
  "replace_prefix j cwd b0 path =
     (case poke b0 0 [NUL] of
        None \<Rightarrow> None
      | Some b1 \<Rightarrow>
     (case (if first_char path \<noteq> CHR ''/'' then
              (if f_chdir (flags j) then concat_path b1 (length b1) (ptr_val (chdir j))
               else if f_chroot (flags j) then concat_path b1 (length b1) (Some ''/'')
               else (case getcwd cwd b1 of
                       (True, b') \<Rightarrow> Some (0, b')
                     | (False, b') \<Rightarrow> Some (1, b')))
            else Some (0, b1)) of
        None \<Rightarrow> None
      | Some (r, b2) \<Rightarrow>
          if r \<noteq> 0 then Some (1, b2)
          else
     (case buf_strlen b2 of
        None \<Rightarrow> None
      | Some len0 \<Rightarrow>
     (case concat_path b2 (length b2 - len0) (Some path) of
        None \<Rightarrow> None
      | Some (r, b3) \<Rightarrow>
          if r \<noteq> 0 then Some (1, b3)
          else
     (case buf_strlen b3 of
        None \<Rightarrow> None
      | Some len \<Rightarrow>
     (case (case foldl (pick_binding b3) (None, 0) (bindings j) of
              (Some best, best_len) \<Rightarrow> Some (src best, best_len)
            | (None, _) \<Rightarrow>
                if f_chroot (flags j)
                then map_option (\<lambda>s. (s, 1)) (ptr_val (chrootdir j))
                else Some (''/'', 1)) of
        None \<Rightarrow> None
      | Some (src_path, best_len) \<Rightarrow>
          if strlen src_path = 0 then None
          else
            (let src_len = (if last (cstr src_path) = CHR ''/'' then strlen src_path - 1
                            else strlen src_path)
             in if size_add (size_add (size_sub len best_len) src_len) 2 \<ge> length b3
                then Some (1, b3)
                else
                  (case peek b3 best_len (size_sub len best_len) of
                     None \<Rightarrow> None
                   | Some moved \<Rightarrow>
                  (case poke b3 (src_len + 1) moved of
                     None \<Rightarrow> None
                   | Some b4 \<Rightarrow>
                  (case poke b4 0 (strncpy_bytes src_path src_len) of
                     None \<Rightarrow> None
                   | Some b5 \<Rightarrow>
                       map_option (Pair 0) (poke b5 src_len [CHR ''/''])))))))))))"

text \<open>The file system, as \<^verbatim>\<open>lstat\<close> and \<^verbatim>\<open>readlink\<close> see it: what a path names, and for
  a symbolic link its target, \<open>None\<close> when \<^verbatim>\<open>readlink\<close> fails.\<close>

datatype node = Absent | Regular | Symlink "string option" | Other_node

definition PATH_MAX :: nat where
  "PATH_MAX = 4096"

text \<open>What \<^verbatim>\<open>minijail_get_path\<close> gives: a memory fault, the exhaustion of the stack (both
  end the process), or its result and the buffer.\<close>

datatype path_result = Path_fault | Stack_overflow | Path_ret int "byte list"

text \<open>One activation of \<^verbatim>\<open>minijail_get_path\<close>: it ends, or it calls itself with the text
  of the link. \<^verbatim>\<open>lstat\<close> and \<^verbatim>\<open>readlink\<close> read the buffer up to its first NUL, which
  must lie inside the array.\<close>

datatype step = Done path_result | Follow "byte list" string

definition resolve_step ::
  "minijail \<Rightarrow> (string \<Rightarrow> node) \<Rightarrow> string option \<Rightarrow> byte list \<Rightarrow> string \<Rightarrow> step" where
  "resolve_step j fs cwd b0 path =
     (case replace_prefix j cwd b0 path of
        None \<Rightarrow> Done Path_fault
      | Some (r, b) \<Rightarrow>
          if r \<noteq> 0 then Done (Path_ret 1 b)
          else if NUL \<notin> set b then Done Path_fault
          else
            (case fs (cstr b) of
               Absent \<Rightarrow> Done (Path_ret 1 b)
             | Regular \<Rightarrow> Done (Path_ret 0 b)
             | Other_node \<Rightarrow> Done (Path_ret 1 b)
             | Symlink None \<Rightarrow> Done (Path_ret 1 b)
             | Symlink (Some t) \<Rightarrow> Follow b (take PATH_MAX (cstr t))))"

text \<open>
  \<^verbatim>\<open>minijail_get_path\<close>. The function calls itself for every link it meets; it counts
  no depth and keeps no memory of the names it has seen. Each activation keeps its array
  \<^verbatim>\<open>linkpath[PATH_MAX + 1]\<close> and its \<^verbatim>\<open>struct stat\<close> on the stack until the inner call
  returns (the inner call reads the array), so the depth is bounded by the stack alone:
  \<open>room\<close> is the number of activations the stack has room for, and the activation for
  which there is none ends the process.
\<close>

fun minijail_get_path ::
  "nat \<Rightarrow> minijail \<Rightarrow> (string \<Rightarrow> node) \<Rightarrow> string option \<Rightarrow> byte list \<Rightarrow> string \<Rightarrow>
     path_result" where
  "minijail_get_path 0 j fs cwd b path = Stack_overflow"
| "minijail_get_path (Suc room) j fs cwd b path =
     (case resolve_step j fs cwd b path of
        Done r \<Rightarrow> r
      | Follow b' link \<Rightarrow> minijail_get_path room j fs cwd b' link)"

text \<open>Path names that differ only in repeated slashes name the same file: a file
  system that knows the regular files \<open>regs\<close> and the links \<open>links\<close> answers for the name
  with its slashes squeezed.\<close>

fun squeeze :: "string \<Rightarrow> string" where
  "squeeze (a # b # s) =
     (if a = CHR ''/'' \<and> b = CHR ''/'' then squeeze (b # s) else a # squeeze (b # s))"
| "squeeze s = s"

definition files :: "string list \<Rightarrow> (string \<times> string) list \<Rightarrow> string \<Rightarrow> node" where
  "files regs links p =
     (if squeeze p \<in> set regs then Regular
      else case map_of links (squeeze p) of
        Some t \<Rightarrow> Symlink (Some t)
      | None \<Rightarrow> Absent)"

text \<open>The policy with the bindings \<open>/x\<close> on \<open>/a\<close> and \<open>/y\<close> on \<open>/a/b\<close>.\<close>

definition two_bindings :: minijail where
  "two_bindings =
     minijail_new\<lparr>flags := no_flags\<lparr>f_vfs := True\<rparr>, binding_count := 2,
       bindings := [\<lparr>b_addr = 1, src = ''/x'', dest = ''/a'', writeable = 0\<rparr>,
                    \<lparr>b_addr = 4, src = ''/y'', dest = ''/a/b'', writeable = 0\<rparr>]\<rparr>"

section \<open>Predicates of the statements\<close>

text \<open>The invariant of the flags: \<open>pids\<close> comes with \<open>vfs\<close> and \<open>readonly\<close>, a binding with
  \<open>vfs\<close>.\<close>

definition flag_inv :: "minijail \<Rightarrow> bool" where
  "flag_inv j \<longleftrightarrow>
     (f_pids (flags j) \<longrightarrow> f_vfs (flags j) \<and> f_readonly (flags j)) \<and>
     (bindings j \<noteq> [] \<longrightarrow> f_vfs (flags j))"

text \<open>\<open>only A m\<close>: every call of the run \<open>m\<close> satisfies \<open>A\<close>.\<close>

definition only :: "(sys \<Rightarrow> bool) \<Rightarrow> 'a run \<Rightarrow> bool" where
  "only A m \<longleftrightarrow> (\<forall>e \<in> set (trace m). A e)"

text \<open>\<open>phased A B m\<close>: the trace of \<open>m\<close> is a run of calls that satisfy \<open>A\<close>, then a run
  of calls that satisfy \<open>B\<close>.\<close>

definition phased :: "(sys \<Rightarrow> bool) \<Rightarrow> (sys \<Rightarrow> bool) \<Rightarrow> 'a run \<Rightarrow> bool" where
  "phased A B m \<longleftrightarrow>
     (\<exists>us vs. trace m = us @ vs \<and> (\<forall>e \<in> set us. A e) \<and> (\<forall>e \<in> set vs. B e))"

text \<open>The calls of the first part of \<^verbatim>\<open>minijail_enter\<close>, before the identity, the
  capabilities and the filter: none of them drops a privilege or installs the filter.\<close>

definition setup_call :: "sys \<Rightarrow> bool" where
  "setup_call e \<longleftrightarrow> \<not> privilege_drop e \<and> e \<noteq> Prctl_set_seccomp_filter"

text \<open>The bytes that \<^verbatim>\<open>minijail_marshal_helper\<close> appends, one after the other: the
  struct, the strings that are present, the filter program when the flag
  \<open>seccomp_filter\<close> is set, and the bindings.\<close>

definition str_opt :: "string ptr \<Rightarrow> byte list" where
  "str_opt p = (case p of Null \<Rightarrow> [] | Ptr _ s \<Rightarrow> str_mem s)"

definition filter_part :: "minijail \<Rightarrow> byte list" where
  "filter_part j =
     (case filter_prog j of
        Null \<Rightarrow> []
      | Ptr _ fp \<Rightarrow>
          if f_seccomp_filter (flags j) then take (unat (fp_len fp) * 8) (fp_filter fp) else [])"

definition binding_bytes :: "binding \<Rightarrow> byte list" where
  "binding_bytes b = str_mem (src b) @ str_mem (dest b) @ le32 (writeable b)"

definition serialization :: "minijail \<Rightarrow> byte list" where
  "serialization j =
     struct_image j @ str_opt (user j) @ str_opt (chrootdir j) @ str_opt (chdir j) @
     filter_part j @ concat (map binding_bytes (bindings j))"

text \<open>The instruction array holds the instructions that \<^verbatim>\<open>len\<close> counts.\<close>

definition filter_array_ok :: "minijail \<Rightarrow> bool" where
  "filter_array_ok j \<longleftrightarrow>
     (case filter_prog j of
        Null \<Rightarrow> True
      | Ptr _ fp \<Rightarrow> unat (fp_len fp) * 8 \<le> length (fp_filter fp))"

text \<open>The state of the marshaller after the bytes \<open>xs\<close> were appended to a buffer of
  \<open>cap\<close> bytes.\<close>

definition marshalled :: "nat \<Rightarrow> byte list \<Rightarrow> marshal_state \<Rightarrow> bool" where
  "marshalled cap xs st \<longleftrightarrow>
     buf st = take cap xs \<and> available st = cap - length xs \<and> total st = length xs"

text \<open>The number of bytes of the serialization, part by part.\<close>

definition binding_size :: "binding \<Rightarrow> nat" where
  "binding_size b = (strlen (src b) + 1) + (strlen (dest b) + 1) + 4"

definition wire_size :: "minijail \<Rightarrow> nat" where
  "wire_size j =
     sizeof_minijail +
     (case user j of Null \<Rightarrow> 0 | Ptr _ s \<Rightarrow> strlen s + 1) +
     (case chrootdir j of Null \<Rightarrow> 0 | Ptr _ s \<Rightarrow> strlen s + 1) +
     (case chdir j of Null \<Rightarrow> 0 | Ptr _ s \<Rightarrow> strlen s + 1) +
     (case filter_prog j of
        Null \<Rightarrow> 0
      | Ptr _ fp \<Rightarrow> if f_seccomp_filter (flags j) then unat (fp_len fp) * 8 else 0) +
     sum_list (map binding_size (bindings j))"

text \<open>The allocator serves at least \<open>n\<close> more requests.\<close>

definition plenty :: "nat \<Rightarrow> heap \<Rightarrow> bool" where
  "plenty n h \<longleftrightarrow> n \<le> length h \<and> 0 \<notin> set h"

text \<open>What the builder calls keep true of a policy: its strings are C strings held at
  addresses other than NULL, \<^verbatim>\<open>filter_len\<close> is the length of the program and its array
  holds that many instructions, the destinations of the bindings are absolute, and
  \<^verbatim>\<open>binding_count\<close> counts the bindings.\<close>

definition ptr_ok :: "string ptr \<Rightarrow> bool" where
  "ptr_ok p \<longleftrightarrow> (case p of Null \<Rightarrow> True | Ptr a s \<Rightarrow> a \<noteq> 0 \<and> NUL \<notin> set s)"

definition fprog_wf :: "cint \<Rightarrow> sock_fprog ptr \<Rightarrow> bool" where
  "fprog_wf fl p \<longleftrightarrow>
     (case p of
        Null \<Rightarrow> fl = 0
      | Ptr _ fp \<Rightarrow> fl = ucast (fp_len fp) \<and> length (fp_filter fp) = unat (fp_len fp) * 8)"

definition filter_wf :: "minijail \<Rightarrow> bool" where
  "filter_wf j \<longleftrightarrow> fprog_wf (filter_len j) (filter_prog j)"

definition binding_ok :: "binding \<Rightarrow> bool" where
  "binding_ok b \<longleftrightarrow> NUL \<notin> set (src b) \<and> NUL \<notin> set (dest b) \<and> take 1 (dest b) = ''/''"

text \<open>A binding without its address.\<close>

definition content :: "binding \<Rightarrow> string \<times> string \<times> cint" where
  "content b = (src b, dest b, writeable b)"

definition wf_policy :: "minijail \<Rightarrow> bool" where
  "wf_policy j \<longleftrightarrow>
     ptr_ok (user j) \<and> ptr_ok (chrootdir j) \<and> ptr_ok (chdir j) \<and> filter_wf j \<and>
     (\<forall>b \<in> set (bindings j). binding_ok b) \<and>
     binding_count j = of_nat (length (bindings j)) \<and>
     (bindings j \<noteq> [] \<longrightarrow> f_vfs (flags j))"

text \<open>The contract of the external \<^verbatim>\<open>compile_filter\<close>: the array of the program it stores
  holds the instructions its length counts.\<close>

fun call_ok :: "call \<Rightarrow> bool" where
  "call_ok (Parse_seccomp_filters p ok h (Some fp)) \<longleftrightarrow>
     length (fp_filter fp) = unat (fp_len fp) * 8"
| "call_ok _ \<longleftrightarrow> True"

text \<open>\<open>reproduces j' j\<close>: the policy \<open>j'\<close> read from the image of \<open>j\<close> has the fields of
  \<open>j\<close>, pointers compared by what they point to; the filter program only where the
  image holds it.\<close>

definition reproduces :: "minijail \<Rightarrow> minijail \<Rightarrow> bool" where
  "reproduces j' j \<longleftrightarrow>
     flags j' = flags j \<and> uid j' = uid j \<and> gid j' = gid j \<and> usergid j' = usergid j \<and>
     caps j' = caps j \<and> initpid j' = initpid j \<and> filter_len j' = filter_len j \<and>
     binding_count j' = binding_count j \<and> stack_limit j' = stack_limit j \<and>
     time_limit j' = time_limit j \<and> memory_limit j' = memory_limit j \<and>
     output_limit j' = output_limit j \<and>
     ptr_val (user j') = ptr_val (user j) \<and>
     ptr_val (chrootdir j') = ptr_val (chrootdir j) \<and>
     ptr_val (chdir j') = ptr_val (chdir j) \<and>
     map content (bindings j') = map content (bindings j) \<and>
     ptr_val (filter_prog j') =
       (if f_seccomp_filter (flags j) \<and> 0 < sint (filter_len j)
        then ptr_val (filter_prog j) else None) \<and>
     meta_file j' = Null"

text \<open>The memory of the policy comes from the allocations \<open>h\<close>.\<close>

definition owned_from :: "heap \<Rightarrow> minijail \<Rightarrow> bool" where
  "owned_from h j \<longleftrightarrow>
     ptr_word (user j) \<in> insert 0 (set h) \<and> ptr_word (chrootdir j) \<in> insert 0 (set h) \<and>
     ptr_word (chdir j) \<in> insert 0 (set h) \<and> ptr_word (filter_prog j) \<in> insert 0 (set h) \<and>
     b_addr ` set (bindings j) \<subseteq> set h"

text \<open>An instruction array of 8178 instructions, for an example of a policy over the
  limit.\<close>

definition big_array :: "byte list" where
  "big_array = replicate 65424 (CHR ''A'')"



section \<open>Theorems\<close>

subsection \<open>Bit operations of the wait macros\<close>

lemma and_127: "(x::int) AND 127 = x mod 128"
proof -
  have "x AND 127 = x AND mask 7" by (simp add: mask_eq_exp_minus_1)
  also have "\<dots> = take_bit 7 x" by (simp add: take_bit_eq_mask)
  also have "\<dots> = x mod 128" by (simp add: take_bit_eq_mod)
  finally show ?thesis .
qed

lemma drop_and_push_mask:
  "drop_bit 8 ((x::int) AND push_bit 8 (mask 8)) = take_bit 8 (drop_bit 8 x)"
  by (rule bit_eqI) (auto simp add: bit_simps)

lemma exit_byte: "drop_bit 8 ((x::int) AND 0xff00) = (x div 256) mod 256"
proof -
  have "(0xff00::int) = push_bit 8 (mask 8)"
    by (simp add: mask_eq_exp_minus_1 push_bit_eq_mult)
  then have "drop_bit 8 (x AND 0xff00) = take_bit 8 (drop_bit 8 x)"
    by (simp only: drop_and_push_mask)
  also have "\<dots> = (x div 256) mod 256"
    by (simp add: take_bit_eq_mod drop_bit_eq_div)
  finally show ?thesis .
qed

lemma WTERMSIG_exited: "WTERMSIG (status_exited n) = 0"
  by (simp add: WTERMSIG_def status_exited_def and_127)

lemma WEXITSTATUS_exited: "0 \<le> n \<Longrightarrow> n < 256 \<Longrightarrow> WEXITSTATUS (status_exited n) = n"
  unfolding WEXITSTATUS_def status_exited_def exit_byte by simp

lemma WTERMSIG_signaled:
  "1 \<le> s \<Longrightarrow> s < 127 \<Longrightarrow> WTERMSIG (status_signaled s core) = s"
  by (simp add: WTERMSIG_def status_signaled_def and_127)

lemma WIFSIGNALED_signaled:
  assumes "1 \<le> s" "s < 127"
  shows "WIFSIGNALED (status_signaled s core)"
proof -
  have t: "status_signaled s core AND 0x7f = s"
    using WTERMSIG_signaled [OF assms] by (simp add: WTERMSIG_def)
  have "signed_take_bit 7 (s + 1) = s + 1"
    using assms by (simp add: signed_take_bit_int_eq_self)
  then show ?thesis
    using assms by (simp add: WIFSIGNALED_def t drop_bit_eq_div)
qed

text \<open>
  C2. For the status of a child that exited with \<open>n\<close> (\<open>0 \<le> n < 256\<close>),
  \<^verbatim>\<open>minijail_wait\<close> returns \<open>n\<close>; for a child killed by a signal \<open>s\<close> other than
  \<^verbatim>\<open>SIGSYS\<close> it returns \<open>128 + s\<close>; for a child killed by \<^verbatim>\<open>SIGSYS\<close> it returns
  \<^verbatim>\<open>MINIJAIL_ERR_JAIL\<close>.
\<close>

theorem minijail_wait_exit_code_mapping:
  "(0 \<le> n \<and> n < 256 \<and> waitpid (initpid j) = Waited (status_exited n)
      \<longrightarrow> minijail_wait err_jail waitpid j = n) \<and>
   (1 \<le> s \<and> s < 127 \<and> s \<noteq> SIGSYS \<and> waitpid (initpid j) = Waited (status_signaled s core)
      \<longrightarrow> minijail_wait err_jail waitpid j = 128 + s) \<and>
   (waitpid (initpid j) = Waited (status_signaled SIGSYS core)
      \<longrightarrow> minijail_wait err_jail waitpid j = err_jail)"
proof (intro conjI impI)
  assume "0 \<le> n \<and> n < 256 \<and> waitpid (initpid j) = Waited (status_exited n)"
  then show "minijail_wait err_jail waitpid j = n"
    by (simp add: minijail_wait_def WIFEXITED_def WTERMSIG_exited WEXITSTATUS_exited)
next
  assume a: "1 \<le> s \<and> s < 127 \<and> s \<noteq> SIGSYS \<and>
             waitpid (initpid j) = Waited (status_signaled s core)"
  then have "WTERMSIG (status_signaled s core) = s" "WIFSIGNALED (status_signaled s core)"
    by (simp_all add: WTERMSIG_signaled WIFSIGNALED_signaled)
  with a show "minijail_wait err_jail waitpid j = 128 + s"
    by (simp add: minijail_wait_def WIFEXITED_def)
next
  assume a: "waitpid (initpid j) = Waited (status_signaled SIGSYS core)"
  have "WTERMSIG (status_signaled SIGSYS core) = SIGSYS"
       "WIFSIGNALED (status_signaled SIGSYS core)"
    by (simp_all add: WTERMSIG_signaled WIFSIGNALED_signaled SIGSYS_def)
  with a show "minijail_wait err_jail waitpid j = err_jail"
    by (simp add: minijail_wait_def WIFEXITED_def SIGSYS_def)
qed

theorem minijail_wait_exit_code_mapping_witness:
  "minijail_wait 253 (\<lambda>p. Waited (status_exited 3)) minijail_new = 3 \<and>
   minijail_wait 253 (\<lambda>p. Waited (status_signaled 9 False)) minijail_new = 128 + 9 \<and>
   minijail_wait 253 (\<lambda>p. Waited (status_signaled SIGSYS True)) minijail_new = 253"
  using minijail_wait_exit_code_mapping
    [where n = 3 and waitpid = "\<lambda>p. Waited (status_exited 3)" and j = minijail_new
       and err_jail = 253]
    minijail_wait_exit_code_mapping
    [where s = 9 and core = False and waitpid = "\<lambda>p. Waited (status_signaled 9 False)"
       and j = minijail_new and err_jail = 253]
    minijail_wait_exit_code_mapping
    [where core = True and waitpid = "\<lambda>p. Waited (status_signaled SIGSYS True)"
       and j = minijail_new and err_jail = 253]
  by (simp add: SIGSYS_def)

subsection \<open>The builder\<close>

lemmas builder_defs =
  minijail_change_uid_def minijail_change_gid_def minijail_change_user_def
  minijail_change_group_def minijail_use_seccomp_def minijail_no_new_privs_def
  minijail_use_seccomp_filter_def minijail_log_seccomp_filter_failures_def
  minijail_use_caps_def minijail_namespace_vfs_def minijail_namespace_pids_def
  minijail_namespace_net_def minijail_remount_readonly_def minijail_inherit_usergroups_def
  minijail_disable_ptrace_def minijail_enter_chroot_def minijail_mount_tmp_def
  minijail_chroot_chdir_def minijail_bind_def minijail_parse_seccomp_filters_def
  minijail_stack_limit_def minijail_time_limit_def minijail_output_limit_def
  minijail_memory_limit_def minijail_meta_file_def void_def

lemma apply_call_mono:
  assumes "apply_call c j = Ret r j'"
  shows "(f_vfs (flags j) \<longrightarrow> f_vfs (flags j')) \<and>
         (f_readonly (flags j) \<longrightarrow> f_readonly (flags j')) \<and>
         (f_pids (flags j') \<longrightarrow> f_pids (flags j) \<or> f_vfs (flags j') \<and> f_readonly (flags j')) \<and>
         (bindings j' \<noteq> [] \<longrightarrow> bindings j' = bindings j \<or> f_vfs (flags j'))"
  using assms
  by (cases c)
     (auto simp: builder_defs Let_def split: if_splits prod.splits option.splits
        outcome.splits)

lemma apply_call_flag_inv:
  assumes "apply_call c j = Ret r j'" "flag_inv j"
  shows "flag_inv j'"
  using apply_call_mono [OF assms(1)] assms(2) unfolding flag_inv_def by metis

lemma run_calls_flag_inv: "run_calls cs j = Some j' \<Longrightarrow> flag_inv j \<Longrightarrow> flag_inv j'"
proof (induction cs arbitrary: j)
  case Nil
  then show ?case by simp
next
  case (Cons c cs)
  then show ?case
    by (auto split: outcome.splits dest: apply_call_flag_inv)
qed

lemma flag_inv_new: "flag_inv minijail_new"
  by (simp add: flag_inv_def minijail_new_def no_flags_def)

text \<open>
  C4. After every sequence of builder calls on a new policy: if \<open>pids\<close> is set then \<open>vfs\<close>
  and \<open>readonly\<close> are set, and if the binding list is not empty then \<open>vfs\<close> is set;
  and no further builder call clears \<open>vfs\<close> or \<open>readonly\<close>.
\<close>

theorem builder_flag_invariant:
  assumes "run_calls cs minijail_new = Some j"
  shows "(f_pids (flags j) \<longrightarrow> f_vfs (flags j) \<and> f_readonly (flags j)) \<and>
         (bindings j \<noteq> [] \<longrightarrow> f_vfs (flags j)) \<and>
         (\<forall>c r j'. apply_call c j = Ret r j' \<longrightarrow>
            (f_vfs (flags j) \<longrightarrow> f_vfs (flags j')) \<and>
            (f_readonly (flags j) \<longrightarrow> f_readonly (flags j')))"
proof -
  have "flag_inv j"
    using run_calls_flag_inv [OF assms flag_inv_new] .
  then show ?thesis
    unfolding flag_inv_def using apply_call_mono by blast
qed

theorem builder_flag_invariant_witness:
  "\<exists>j. run_calls [Namespace_pids, Bind ''/x'' ''/a'' 0 [1, 2, 3], Use_seccomp] minijail_new
          = Some j \<and>
       f_pids (flags j) \<and> f_vfs (flags j) \<and> f_readonly (flags j) \<and> bindings j \<noteq> []"
proof -
  obtain j where a: "run_calls [Namespace_pids, Bind ''/x'' ''/a'' 0 [1, 2, 3], Use_seccomp]
               minijail_new = Some j"
    by (simp add: builder_defs alloc_def)
  from a have "f_pids (flags j)" "bindings j \<noteq> []"
    by (auto simp: builder_defs minijail_new_def alloc_def)
  with builder_flag_invariant [OF a] a show ?thesis
    by blast
qed

subsection \<open>The time limit\<close>

lemma ceil_div_1000: "0 \<le> t \<Longrightarrow> \<lceil>real_of_int t / 1000\<rceil> = (t + 999) div 1000"
proof -
  have "\<lceil>real_of_int t / real_of_int 1000\<rceil> = - (- t div 1000)"
    by (rule ceiling_divide_eq_div)
  then show ?thesis by simp
qed

lemma int32_id: "- 2147483648 \<le> x \<Longrightarrow> x < 2147483648 \<Longrightarrow> int32 x = x"
  by (simp add: int32_def signed_take_bit_int_eq_self)

lemma c_div_nonneg: "0 \<le> a \<Longrightarrow> 0 < b \<Longrightarrow> c_div a b = a div b"
  by (cases "a = 0") (simp_all add: c_div_def)

lemma alarm_arg:
  assumes "0 \<le> t" "t \<le> 2147481648"
  shows "uint32 (c_div (int32 (t + 1999)) 1000) = \<lceil>real_of_int t / 1000\<rceil> + 1"
proof -
  have "int32 (t + 1999) = t + 1999" using assms by (simp add: int32_id)
  moreover have "c_div (t + 1999) 1000 = (t + 1999) div 1000"
    using assms by (simp add: c_div_nonneg)
  moreover have "(t + 1999) div 1000 = (t + 999) div 1000 + 1"
    using div_add_self2 [of 1000 "t + 999"] by (simp add: add.commute)
  moreover have "0 \<le> (t + 999) div 1000 + 1"
    using assms by (simp add: pos_imp_zdiv_nonneg_iff)
  moreover have "(t + 999) div 1000 + 1 < 2 ^ 32"
    using assms zdiv_mono1 [of "t + 999" 2147482647 1000] by simp
  ultimately show ?thesis using assms by (simp add: uint32_def ceil_div_1000)
qed

lemma cpu_arg:
  assumes "0 \<le> t" "t \<le> 2147482648"
  shows "uint64 (c_div (int32 (999 + t)) 1000) = \<lceil>real_of_int t / 1000\<rceil>"
proof -
  have "int32 (999 + t) = t + 999" using assms by (simp add: int32_id)
  moreover have "c_div (t + 999) 1000 = (t + 999) div 1000"
    using assms by (simp add: c_div_nonneg)
  moreover have "0 \<le> (t + 999) div 1000"
    using assms by (simp add: pos_imp_zdiv_nonneg_iff)
  moreover have "(t + 999) div 1000 < 2 ^ 64"
    using assms zdiv_mono1 [of "t + 999" 2147483647 1000] by simp
  ultimately show ?thesis using assms by (simp add: uint64_def ceil_div_1000)
qed

lemma ualarm_arg:
  assumes "0 \<le> t" "t \<le> 2147483"
  shows "uint32 (int32 (t * 1000)) = t * 1000"
proof -
  have "int32 (t * 1000) = t * 1000" using assms by (simp add: int32_id)
  then show ?thesis using assms by (simp add: uint32_def)
qed

lemma trace_seq:
  "trace (seq m f) = trace m @ (case result m of None \<Rightarrow> [] | Some x \<Rightarrow> trace (f x))"
  by (simp add: seq_def split: option.splits)

lemma result_seq:
  "result (seq m f) = (case result m of None \<Rightarrow> None | Some x \<Rightarrow> result (f x))"
  by (simp add: seq_def split: option.splits)

lemma trace_ret: "trace (ret x) = []"
  by (simp add: ret_def)

lemma result_ret: "result (ret x) = Some x"
  by (simp add: ret_def)

lemma trace_sysc: "trace (sysc env e) = [e]"
  by (simp add: sysc_def)

lemma result_sysc: "result (sysc env e) = Some (env e)"
  by (simp add: sysc_def)

lemmas run_simps = trace_seq result_seq trace_ret result_ret trace_sysc result_sysc

lemma setup_limits_time:
  assumes tl: "f_time_limit (flags j)" and env: "\<forall>e. env e = 0"
    and tj: "sint (time_limit j) = t" and t: "0 \<le> t" "t \<le> 2147483"
  shows "\<exists>pre. trace (setup_limits env j) =
           pre @ [Setrlimit RLIMIT_CPU \<lceil>real_of_int t / 1000\<rceil> (\<lceil>real_of_int t / 1000\<rceil> + 1),
                  Ualarm (t * 1000)] \<and>
         result (setup_limits env j) = Some 0"
proof -
  let ?c = "\<lceil>real_of_int t / 1000\<rceil>"
  let ?pre = "(if f_memory_limit (flags j)
               then [Setrlimit RLIMIT_AS (rlim (memory_limit j)) (rlim (memory_limit j))]
               else []) @
              (if f_output_limit (flags j)
               then [Setrlimit RLIMIT_FSIZE (rlim (output_limit j)) (rlim (output_limit j)),
                     Setrlimit RLIMIT_CORE 0 0]
               else []) @
              (if f_stack_limit (flags j)
               then [Setrlimit RLIMIT_STACK (rlim (stack_limit j)) (rlim (stack_limit j))]
               else [])"
  have c: "uint64 (c_div (int32 (999 + t)) 1000) = ?c"
    using t by (intro cpu_arg) simp_all
  have "0 \<le> ?c" using t by simp
  moreover have "?c \<le> 2147483" using t by (simp add: ceiling_le_iff)
  ultimately have m: "uint64 (?c + 1) = ?c + 1" by (simp add: uint64_def)
  have u: "uint32 (int32 (t * 1000)) = t * 1000"
    using t by (rule ualarm_arg)
  have "trace (setup_limits env j) =
          ?pre @ [Setrlimit RLIMIT_CPU ?c (?c + 1), Ualarm (t * 1000)]"
    using tl env by (simp add: setup_limits_def run_simps tj c m u Let_def)
  moreover have "result (setup_limits env j) = Some 0"
    using tl env by (simp add: setup_limits_def run_simps Let_def)
  ultimately show ?thesis
    by blast
qed

text \<open>
  C8, as the code has it. With the time limit set to \<open>t\<close> milliseconds,
  \<open>0 \<le> t \<le> 2147483\<close> (so that \<open>t * 1000\<close> fits an \<^verbatim>\<open>int\<close>): \<^verbatim>\<open>init\<close> arms its alarm for
  \<open>\<lfloor>(t + 1999) / 1000\<rfloor> = \<lceil>t / 1000\<rceil> + 1\<close> seconds, one second more than the soft CPU
  limit; \<^verbatim>\<open>setup_limits\<close>, when its calls succeed, sets \<^verbatim>\<open>RLIMIT_CPU\<close> to the soft limit
  \<open>\<lceil>t / 1000\<rceil>\<close> and the hard limit \<open>\<lceil>t / 1000\<rceil> + 1\<close>, then calls
  \<^verbatim>\<open>ualarm(t * 1000, 0)\<close>, and returns 0.
\<close>

theorem time_limit_arming:
  assumes "f_time_limit (flags j)" and "sint (time_limit j) = t"
    and "0 \<le> t" "t \<le> 2147483"
  shows "init_arming j =
           (if f_meta_file (flags j) then [Clock_gettime] else []) @
           [Signal_handler SIGALRM, Alarm (\<lceil>real_of_int t / 1000\<rceil> + 1),
            Signal_handler SIGTERM] \<and>
         \<lfloor>(real_of_int t + 1999) / 1000\<rfloor> = \<lceil>real_of_int t / 1000\<rceil> + 1 \<and>
         (\<forall>env. (\<forall>e. env e = 0) \<longrightarrow>
            (\<exists>pre. trace (setup_limits env j) =
               pre @ [Setrlimit RLIMIT_CPU \<lceil>real_of_int t / 1000\<rceil>
                        (\<lceil>real_of_int t / 1000\<rceil> + 1),
                      Ualarm (t * 1000)] \<and>
             result (setup_limits env j) = Some 0))"
proof (intro conjI allI impI)
  have "uint32 (c_div (int32 (t + 1999)) 1000) = \<lceil>real_of_int t / 1000\<rceil> + 1"
    using assms by (intro alarm_arg) simp_all
  then show "init_arming j =
           (if f_meta_file (flags j) then [Clock_gettime] else []) @
           [Signal_handler SIGALRM, Alarm (\<lceil>real_of_int t / 1000\<rceil> + 1),
            Signal_handler SIGTERM]"
    using assms(1,2) by (simp add: init_arming_def)
next
  have "\<lfloor>(real_of_int t + 1999) / 1000\<rfloor> = (t + 1999) div 1000"
    using floor_divide_of_int_eq [of "t + 1999" 1000] by simp
  also have "\<dots> = (t + 999) div 1000 + 1"
    using div_add_self2 [of 1000 "t + 999"] by (simp add: add.commute)
  finally show "\<lfloor>(real_of_int t + 1999) / 1000\<rfloor> = \<lceil>real_of_int t / 1000\<rceil> + 1"
    using assms(3) by (simp add: ceil_div_1000)
next
  fix env :: "sys \<Rightarrow> int" assume "\<forall>e. env e = 0"
  then show "\<exists>pre. trace (setup_limits env j) =
               pre @ [Setrlimit RLIMIT_CPU \<lceil>real_of_int t / 1000\<rceil>
                        (\<lceil>real_of_int t / 1000\<rceil> + 1),
                      Ualarm (t * 1000)] \<and>
             result (setup_limits env j) = Some 0"
    using setup_limits_time assms by blast
qed

theorem time_limit_arming_witness:
  "init_arming (minijail_time_limit minijail_new 1500) =
     [Signal_handler SIGALRM, Alarm 3, Signal_handler SIGTERM] \<and>
   trace (setup_limits (\<lambda>e. 0) (minijail_time_limit minijail_new 1500)) =
     [Setrlimit RLIMIT_CPU 2 3, Ualarm 1500000]"
proof -
  let ?j = "minijail_time_limit minijail_new 1500"
  have f: "f_time_limit (flags ?j)" "\<not> f_meta_file (flags ?j)" "sint (time_limit ?j) = 1500"
    "\<not> f_memory_limit (flags ?j)" "\<not> f_output_limit (flags ?j)" "\<not> f_stack_limit (flags ?j)"
    by (simp_all add: minijail_time_limit_def minijail_new_def no_flags_def)
  have c: "\<lceil>(1500::real) / 1000\<rceil> = 2"
    by (simp add: ceiling_unique)
  have "\<exists>pre. trace (setup_limits (\<lambda>e. 0) ?j) = pre @ [Setrlimit RLIMIT_CPU 2 3, Ualarm 1500000]"
    using time_limit_arming [of ?j 1500] f c by simp
  moreover have "length (trace (setup_limits (\<lambda>e. 0) ?j)) = 2"
    using f by (simp add: setup_limits_def run_simps Let_def)
  ultimately have "trace (setup_limits (\<lambda>e. 0) ?j) = [Setrlimit RLIMIT_CPU 2 3, Ualarm 1500000]"
    by auto
  then show ?thesis
    using time_limit_arming [of ?j 1500] f c by simp
qed

text \<open>The claim's formula fails at \<open>t = 1000\<close>: the alarm is armed for 2 seconds, and
  \<open>\<lceil>(1000 + 1999) / 1000\<rceil>\<close> is 3.\<close>

theorem time_limit_arming_counterexample:
  "init_arming (minijail_time_limit minijail_new 1000) =
     [Signal_handler SIGALRM, Alarm 2, Signal_handler SIGTERM] \<and>
   \<lceil>(real_of_int 1000 + 1999) / 1000\<rceil> = (3::int)"
proof -
  have "uint32 (c_div (int32 (1000 + 1999)) 1000) = 2"
    by (simp add: uint32_def c_div_def int32_def)
  moreover have "\<lceil>(2999::real) / 1000\<rceil> = 3"
    by (simp add: ceiling_unique)
  ultimately show ?thesis
    by (simp add: init_arming_def minijail_time_limit_def minijail_new_def no_flags_def)
qed

subsection \<open>Errors of the builder\<close>





subsection \<open>The order of the calls of minijail_enter\<close>

lemma only_ret: "only A (ret x)"
  by (simp add: only_def ret_def)

lemma only_die: "only A die"
  by (simp add: only_def die_def)

lemma only_must: "A e \<Longrightarrow> only A (must env e)"
  by (simp add: only_def must_def)

lemma only_sysc: "A e \<Longrightarrow> only A (sysc env e)"
  by (simp add: only_def sysc_def)

lemma only_seq: "only A m \<Longrightarrow> (\<And>x. only A (f x)) \<Longrightarrow> only A (seq m f)"
  by (auto simp: only_def trace_seq split: option.splits)

lemma only_whenever: "(b \<Longrightarrow> only A m) \<Longrightarrow> only A (whenever b m)"
  by (simp add: whenever_def only_ret)

lemma only_if: "(b \<Longrightarrow> only A m) \<Longrightarrow> (\<not> b \<Longrightarrow> only A n) \<Longrightarrow> only A (if b then m else n)"
  by simp

lemma only_or_pdie: "only A m \<Longrightarrow> only A (or_pdie m)"
  by (auto simp: or_pdie_def intro!: only_seq only_ret only_die)

lemma only_mono: "only A m \<Longrightarrow> (\<And>e. A e \<Longrightarrow> B e) \<Longrightarrow> only B m"
  by (auto simp: only_def)

lemma phased_first: "only A m \<Longrightarrow> phased A B m"
  unfolding phased_def only_def by (rule exI [of _ "trace m"], rule exI [of _ "[]"]) simp

lemma phased_second: "only B m \<Longrightarrow> phased A B m"
  unfolding phased_def only_def by (rule exI [of _ "[]"], rule exI [of _ "trace m"]) simp

lemma phased_seq_first:
  assumes "only A m" "\<And>x. phased A B (f x)"
  shows "phased A B (seq m f)"
proof (cases "result m")
  case None
  then have "trace (seq m f) = trace m"
    by (simp add: trace_seq)
  with assms(1) show ?thesis
    unfolding phased_def only_def by (intro exI [of _ "trace m"] exI [of _ "[]"]) simp
next
  case (Some x)
  from assms(2) [of x] obtain us vs where
    f: "trace (f x) = us @ vs" "\<forall>e \<in> set us. A e" "\<forall>e \<in> set vs. B e"
    unfolding phased_def by blast
  have "trace (seq m f) = (trace m @ us) @ vs"
    using Some f(1) by (simp add: trace_seq)
  moreover have "\<forall>e \<in> set (trace m @ us). A e"
    using assms(1) f(2) by (auto simp: only_def)
  ultimately show ?thesis
    unfolding phased_def using f(3) by blast
qed

lemma phased_seq_second:
  assumes "phased A B m" "\<And>x. only B (f x)"
  shows "phased A B (seq m f)"
proof -
  from assms(1) obtain us vs where
    m: "trace m = us @ vs" "\<forall>e \<in> set us. A e" "\<forall>e \<in> set vs. B e"
    unfolding phased_def by blast
  show ?thesis
  proof (cases "result m")
    case None
    then have "trace (seq m f) = us @ vs"
      using m(1) by (simp add: trace_seq)
    with m show ?thesis
      unfolding phased_def by blast
  next
    case (Some x)
    have "trace (seq m f) = us @ (vs @ trace (f x))"
      using Some m(1) by (simp add: trace_seq)
    moreover have "\<forall>e \<in> set (vs @ trace (f x)). B e"
      using assms(2) [of x] m(3) by (auto simp: only_def)
    ultimately show ?thesis
      unfolding phased_def using m(2) by blast
  qed
qed

lemma phased_order:
  assumes "phased A B m" "a < length (trace m)" "b < length (trace m)"
    "\<not> B (trace m ! a)" "\<not> A (trace m ! b)"
  shows "a < b"
proof -
  from assms(1) obtain us vs where
    m: "trace m = us @ vs" "\<forall>e \<in> set us. A e" "\<forall>e \<in> set vs. B e"
    unfolding phased_def by blast
  have "a < length us"
  proof (rule ccontr)
    assume "\<not> a < length us"
    then have "trace m ! a \<in> set vs"
      using assms(2) m(1) by (simp add: nth_append)
    with m(3) assms(4) show False by blast
  qed
  moreover have "length us \<le> b"
  proof (rule ccontr)
    assume "\<not> length us \<le> b"
    then have "trace m ! b \<in> set us"
      using m(1) by (simp add: nth_append)
    with m(2) assms(5) show False by blast
  qed
  ultimately show ?thesis by simp
qed

lemmas only_intros = only_seq only_if only_ret only_die only_sysc only_must only_whenever
  only_or_pdie

lemma only_bind_one: "only setup_call (bind_one env j bs)"
proof (induction bs)
  case Nil
  show ?case by (simp add: only_ret)
next
  case (Cons b bs)
  show ?case
    unfolding bind_one.simps
    by (intro only_intros Cons.IH) (simp_all add: setup_call_def privilege_drop_def)
qed

lemma only_enter_chroot: "only setup_call (enter_chroot env j)"
  unfolding enter_chroot_def
  by (intro only_intros only_bind_one) (simp_all add: setup_call_def privilege_drop_def)

lemma only_remount_readonly: "only setup_call (remount_readonly env j)"
  unfolding remount_readonly_def
  by (intro only_intros) (simp_all add: setup_call_def privilege_drop_def)

lemma only_mount_tmp: "only setup_call (mount_tmp env)"
  unfolding mount_tmp_def
  by (intro only_intros) (simp_all add: setup_call_def privilege_drop_def)

lemma only_setup:
  "only setup_call (whenever (f_vfs (flags j)) (must env Unshare_newns))"
  "only setup_call (whenever (f_net (flags j)) (must env Unshare_newnet))"
  "only setup_call (whenever (f_chroot (flags j)) (or_pdie (enter_chroot env j)))"
  "only setup_call (whenever (f_chroot (flags j) \<and> f_mount_tmp (flags j))
     (or_pdie (mount_tmp env)))"
  "only setup_call (whenever (f_readonly (flags j)) (or_pdie (remount_readonly env j)))"
  "only setup_call (whenever (f_caps (flags j))
     (seq (must env Prctl_set_keepcaps) (\<lambda>_. must env Prctl_set_securebits)))"
  "only setup_call (whenever (f_seccomp (flags j)) (must env Prctl_set_seccomp_strict))"
  by (intro only_intros only_enter_chroot only_mount_tmp only_remount_readonly;
      simp add: setup_call_def privilege_drop_def)+

lemma only_drop_ugid: "only (\<lambda>e. e \<noteq> Prctl_set_seccomp_filter) (drop_ugid env j)"
  unfolding drop_ugid_def
  by (intro only_intros) simp_all

lemma only_run_cap_valid:
  "only (\<lambda>e. e \<noteq> Prctl_set_seccomp_filter) (run_cap_valid env kcap lc cap)"
  unfolding run_cap_valid_def
  by (intro only_intros) simp_all

lemma only_cap_keep_loop:
  "only (\<lambda>e. e \<noteq> Prctl_set_seccomp_filter) (cap_keep_loop env kcap j i lc acc)"
proof (induction env kcap j i lc acc rule: cap_keep_loop.induct)
  case (1 env kcap j i lc acc)
  show ?case
    by (subst cap_keep_loop.simps) (intro only_intros only_run_cap_valid "1.IH"; assumption)
qed

lemma only_cap_bset_loop:
  "only (\<lambda>e. e \<noteq> Prctl_set_seccomp_filter) (cap_bset_loop env kcap j i lc)"
proof (induction env kcap j i lc rule: cap_bset_loop.induct)
  case (1 env kcap j i lc)
  show ?case
    by (subst cap_bset_loop.simps)
       (intro only_intros only_run_cap_valid "1.IH"; (assumption | simp))
qed

lemma only_drop_caps: "only (\<lambda>e. e \<noteq> Prctl_set_seccomp_filter) (drop_caps env kcap j)"
  unfolding drop_caps_def
  by (intro only_intros only_cap_keep_loop only_cap_bset_loop) simp_all

lemma only_set_seccomp_filter: "only (\<lambda>e. \<not> privilege_drop e) (set_seccomp_filter env j)"
  unfolding set_seccomp_filter_def
  by (intro only_intros) (simp_all add: privilege_drop_def)

lemma minijail_enter_phased_nnp:
  assumes "f_no_new_privs (flags j)"
  shows "phased (\<lambda>e. e \<noteq> Prctl_set_seccomp_filter) (\<lambda>e. \<not> privilege_drop e)
           (minijail_enter env kcap j)"
proof -
  let ?A = "\<lambda>e. e \<noteq> Prctl_set_seccomp_filter" and ?B = "\<lambda>e. \<not> privilege_drop e"
  note pre = only_setup [THEN only_mono [where B = ?A], unfolded setup_call_def, simplified]
  note post = only_setup(7) [THEN only_mono [where B = ?B], unfolded setup_call_def,
    simplified]
  have mid: "phased ?A ?B
      (seq (drop_ugid env j) (\<lambda>_.
       seq (whenever (f_caps (flags j)) (drop_caps env kcap j)) (\<lambda>_.
       set_seccomp_filter env j)))"
    by (intro phased_seq_first only_drop_ugid only_whenever only_drop_caps phased_second
          only_set_seccomp_filter)
  show ?thesis
  proof (cases "f_pids (flags j) \<or> f_usergroups (flags j) \<and> user j = Null")
    case True
    then have "minijail_enter env kcap j = die"
      by (auto simp: minijail_enter_def)
    then show ?thesis
      by (simp add: phased_first only_die)
  next
    case False
    then have np: "\<not> f_pids (flags j)"
      and nu: "\<not> (f_usergroups (flags j) \<and> user j = Null)"
      by auto
    show ?thesis
      unfolding minijail_enter_def if_not_P [OF np] if_not_P [OF nu] if_P [OF assms]
      apply (rule phased_seq_first [OF pre(1)])
      apply (rule phased_seq_first [OF pre(2)])
      apply (rule phased_seq_first [OF pre(3)])
      apply (rule phased_seq_first [OF pre(4)])
      apply (rule phased_seq_first [OF pre(5)])
      apply (rule phased_seq_first [OF pre(6)])
      apply (rule phased_seq_second [OF mid])
      apply (rule post)
      done
  qed
qed

lemma minijail_enter_phased_plain:
  assumes "\<not> f_no_new_privs (flags j)"
  shows "phased (\<lambda>e. \<not> privilege_drop e) (\<lambda>e. e \<noteq> Prctl_set_seccomp_filter)
           (minijail_enter env kcap j)"
proof -
  let ?A = "\<lambda>e. \<not> privilege_drop e" and ?B = "\<lambda>e. e \<noteq> Prctl_set_seccomp_filter"
  note pre = only_setup [THEN only_mono [where B = ?A], unfolded setup_call_def, simplified]
  note post = only_setup(7) [THEN only_mono [where B = ?B], unfolded setup_call_def,
    simplified]
  have mid: "phased ?A ?B
      (seq (set_seccomp_filter env j) (\<lambda>_.
       seq (drop_ugid env j) (\<lambda>_.
       whenever (f_caps (flags j)) (drop_caps env kcap j))))"
    by (intro phased_seq_first only_set_seccomp_filter phased_second only_seq
          only_drop_ugid only_whenever only_drop_caps)
  show ?thesis
  proof (cases "f_pids (flags j) \<or> f_usergroups (flags j) \<and> user j = Null")
    case True
    then have "minijail_enter env kcap j = die"
      by (auto simp: minijail_enter_def)
    then show ?thesis
      by (simp add: phased_first only_die)
  next
    case False
    then have np: "\<not> f_pids (flags j)"
      and nu: "\<not> (f_usergroups (flags j) \<and> user j = Null)"
      by auto
    show ?thesis
      unfolding minijail_enter_def if_not_P [OF np] if_not_P [OF nu] if_not_P [OF assms]
      apply (rule phased_seq_first [OF pre(1)])
      apply (rule phased_seq_first [OF pre(2)])
      apply (rule phased_seq_first [OF pre(3)])
      apply (rule phased_seq_first [OF pre(4)])
      apply (rule phased_seq_first [OF pre(5)])
      apply (rule phased_seq_first [OF pre(6)])
      apply (rule phased_seq_second [OF mid])
      apply (rule post)
      done
  qed
qed

text \<open>
  C3. In every run of \<^verbatim>\<open>minijail_enter\<close>, whatever the answers of the environment: with
  \<open>no_new_privs\<close> set, every identity-changing call (\<^verbatim>\<open>initgroups\<close>, \<^verbatim>\<open>setgroups\<close>,
  \<^verbatim>\<open>setresgid\<close>, \<^verbatim>\<open>setresuid\<close>) and every capability-reducing call (\<^verbatim>\<open>cap_set_proc\<close>,
  \<^verbatim>\<open>PR_CAPBSET_DROP\<close>) comes strictly before
  \<^verbatim>\<open>prctl(PR_SET_SECCOMP, SECCOMP_MODE_FILTER)\<close>; with \<open>no_new_privs\<close> clear, the filter
  is installed strictly before each of them.
\<close>

theorem no_new_privs_ordering:
  assumes "tr = trace (minijail_enter env kcap j)"
    and "a < length tr" "b < length tr"
    and "privilege_drop (tr ! a)" "tr ! b = Prctl_set_seccomp_filter"
  shows "(f_no_new_privs (flags j) \<longrightarrow> a < b) \<and> (\<not> f_no_new_privs (flags j) \<longrightarrow> b < a)"
proof (intro conjI impI)
  assume "f_no_new_privs (flags j)"
  from phased_order [OF minijail_enter_phased_nnp [OF this], where a = a and b = b] assms
  show "a < b" by simp
next
  assume "\<not> f_no_new_privs (flags j)"
  from phased_order [OF minijail_enter_phased_plain [OF this], where a = b and b = a] assms
  show "b < a" by simp
qed

theorem no_new_privs_ordering_witness:
  "run_calls [Change_uid 1000, No_new_privs, Use_seccomp_filter] minijail_new =
     Some (minijail_new\<lparr>uid := 1000,
       flags := no_flags\<lparr>f_uid := True, f_no_new_privs := True, f_seccomp_filter := True\<rparr>\<rparr>) \<and>
   trace (minijail_enter (\<lambda>e. 0) 40 (minijail_new\<lparr>uid := 1000,
       flags := no_flags\<lparr>f_uid := True, f_no_new_privs := True, f_seccomp_filter := True\<rparr>\<rparr>)) =
     [Setgroups_none, Setresuid 1000, Prctl_set_no_new_privs, Prctl_set_seccomp_filter] \<and>
   (1::nat) < 3"
proof -
  let ?j = "minijail_new\<lparr>uid := 1000,
       flags := no_flags\<lparr>f_uid := True, f_no_new_privs := True, f_seccomp_filter := True\<rparr>\<rparr>"
  have j: "run_calls [Change_uid 1000, No_new_privs, Use_seccomp_filter] minijail_new = Some ?j"
    by (simp add: builder_defs minijail_new_def)
  have tr: "trace (minijail_enter (\<lambda>e. 0) 40 ?j) =
         [Setgroups_none, Setresuid 1000, Prctl_set_no_new_privs, Prctl_set_seccomp_filter]"
    by (simp add: minijail_new_def no_flags_def minijail_enter_def
          drop_ugid_def set_seccomp_filter_def whenever_def must_def run_simps)
  have nnp: "f_no_new_privs (flags ?j)"
    by simp
  from no_new_privs_ordering [OF refl, where a = 1 and b = 3 and env = "\<lambda>e. 0"
      and kcap = 40 and j = ?j]
  have "(1::nat) < 3"
    unfolding tr using nnp by (simp add: privilege_drop_def)
  with j tr show ?thesis
    by simp
qed

subsection \<open>The size and the truncation of the image\<close>

lemma length_le_bytes [simp]: "length (le_bytes n v) = n"
  by (induction n arbitrary: v) simp_all

lemma length_le32 [simp]: "length (le32 w) = 4"
  by (simp add: le32_def)

lemma length_le64 [simp]: "length (le64 w) = 8"
  by (simp add: le64_def)

lemma length_flag_bytes [simp]: "length (flag_bytes f) = 4"
  by (simp add: flag_bytes_def)

lemma length_struct_image [simp]: "length (struct_image j) = 112"
  by (simp add: struct_image_def)

lemma length_str_mem [simp]: "length (str_mem s) = strlen s + 1"
  by (simp add: str_mem_def strlen_def)

lemma marshalled_init: "marshalled cap [] (marshal_state_init cap)"
  by (simp add: marshalled_def marshal_state_init_def)

lemma marshalled_append:
  assumes "marshalled cap xs st" "n \<le> length mem"
  shows "marshalled cap (xs @ take n mem) (marshal_append st mem n)"
proof (cases "length xs < cap")
  case True
  with assms show ?thesis
    by (auto simp: marshalled_def marshal_append_def Let_def min_def take_all)
next
  case False
  with assms show ?thesis
    by (simp add: marshalled_def marshal_append_def Let_def)
qed

lemma marshalled_whole:
  assumes "marshalled cap xs st" "n = length mem"
  shows "marshalled cap (xs @ mem) (marshal_append st mem n)"
  using marshalled_append [OF assms(1), of n mem] assms(2) by simp

lemma marshalled_str:
  "marshalled cap xs st \<Longrightarrow> marshalled cap (xs @ str_opt p) (marshal_str st p)"
  by (cases p) (simp_all add: str_opt_def marshal_str_def marshalled_whole)

lemma marshalled_binding:
  assumes "marshalled cap xs st"
  shows "marshalled cap (xs @ binding_bytes b) (marshal_binding st b)"
proof -
  have "marshalled cap (((xs @ str_mem (src b)) @ str_mem (dest b)) @ le32 (writeable b))
          (marshal_binding st b)"
    unfolding marshal_binding_def
    by (intro marshalled_whole assms) simp_all
  then show ?thesis
    by (simp add: binding_bytes_def)
qed

lemma marshalled_bindings:
  "marshalled cap xs st \<Longrightarrow>
   marshalled cap (xs @ concat (map binding_bytes bs)) (foldl marshal_binding st bs)"
proof (induction bs arbitrary: xs st)
  case Nil
  then show ?case by simp
next
  case (Cons b bs)
  from Cons.IH [OF marshalled_binding [OF Cons.prems, of b]]
  show ?case by simp
qed

lemma marshalled_filter:
  assumes "marshalled cap xs st" "filter_array_ok j"
  shows "marshalled cap (xs @ filter_part j)
           (case filter_prog j of
              Null \<Rightarrow> st
            | Ptr _ fp \<Rightarrow>
                if f_seccomp_filter (flags j)
                then marshal_append st (fp_filter fp) (unat (fp_len fp) * 8)
                else st)"
  using assms
  by (cases "filter_prog j")
     (simp_all add: filter_part_def filter_array_ok_def marshalled_append)

lemma marshalled_helper:
  assumes "filter_array_ok j"
  shows "marshalled cap (serialization j)
           (minijail_marshal_helper (marshal_state_init cap) j)"
proof -
  have 1: "marshalled cap (struct_image j)
             (marshal_append (marshal_state_init cap) (struct_image j) sizeof_minijail)"
    using marshalled_whole [OF marshalled_init, of sizeof_minijail "struct_image j" cap]
    by (simp add: sizeof_minijail_def)
  note 2 = marshalled_str [OF 1, of "user j"]
  note 3 = marshalled_str [OF 2, of "chrootdir j"]
  note 4 = marshalled_str [OF 3, of "chdir j"]
  note 5 = marshalled_filter [OF 4 assms]
  note 6 = marshalled_bindings [OF 5, of "bindings j"]
  then show ?thesis
    by (simp add: minijail_marshal_helper_def serialization_def Let_def)
qed

lemma total_append [simp]: "total (marshal_append st mem n) = total st + n"
  by (simp add: marshal_append_def Let_def)

lemma total_str:
  "total (marshal_str st p) = total st + (case p of Null \<Rightarrow> 0 | Ptr _ s \<Rightarrow> strlen s + 1)"
  by (cases p) (simp_all add: marshal_str_def)

lemma total_bindings:
  "total (foldl marshal_binding st bs) = total st + sum_list (map binding_size bs)"
  by (induction bs arbitrary: st) (simp_all add: marshal_binding_def binding_size_def)

lemma total_helper: "total (minijail_marshal_helper st j) = total st + wire_size j"
  by (cases "filter_prog j")
     (simp_all add: minijail_marshal_helper_def Let_def total_bindings total_str wire_size_def)

lemma minijail_size_wire: "minijail_size j = wire_size j"
  by (simp add: minijail_size_def total_helper marshal_state_init_def)

lemma marshal_result: "snd (minijail_marshal j cap) = (if minijail_size j > cap then 1 else 0)"
  by (simp add: minijail_marshal_def Let_def total_helper minijail_size_wire
        marshal_state_init_def)

lemma marshal_buf:
  assumes "filter_array_ok j"
  shows "fst (minijail_marshal j cap) = take cap (serialization j)"
    and "minijail_size j = length (serialization j)"
proof -
  have m: "marshalled cap (serialization j)
             (minijail_marshal_helper (marshal_state_init cap) j)" for cap
    using assms by (rule marshalled_helper)
  show "fst (minijail_marshal j cap) = take cap (serialization j)"
    using m [of cap] by (simp add: minijail_marshal_def Let_def marshalled_def)
  show "minijail_size j = length (serialization j)"
    using m [of 0] by (simp add: minijail_size_def marshalled_def)
qed

text \<open>
  C5. \<^verbatim>\<open>minijail_marshal\<close> returns 0 if and only if the capacity is at least
  \<^verbatim>\<open>minijail_size\<close>; so it reports no truncation at exactly that size and truncation one
  byte below. \<^verbatim>\<open>minijail_size\<close> is the number of bytes of the serialization of the policy:
  the struct, the strings that are present with their terminators, the filter program
  when the flag \<open>seccomp_filter\<close> is set, and for each binding its two strings and its
  \<^verbatim>\<open>writeable\<close> word. When the instruction array holds the instructions its length
  counts, the buffer receives exactly the first \<open>cap\<close> bytes of that serialization, which
  are also the first \<open>cap\<close> bytes of what a buffer of \<^verbatim>\<open>minijail_size\<close> bytes receives.
\<close>

theorem marshal_size_agreement:
  "(snd (minijail_marshal j cap) = 0 \<longleftrightarrow> minijail_size j \<le> cap) \<and>
   snd (minijail_marshal j (minijail_size j)) = 0 \<and>
   snd (minijail_marshal j (minijail_size j - 1)) \<noteq> 0 \<and>
   minijail_size j = wire_size j \<and>
   (filter_array_ok j \<longrightarrow>
      fst (minijail_marshal j cap) = take cap (serialization j) \<and>
      fst (minijail_marshal j (minijail_size j)) = serialization j \<and>
      length (serialization j) = minijail_size j \<and>
      fst (minijail_marshal j cap) = take cap (fst (minijail_marshal j (minijail_size j))) \<and>
      length (fst (minijail_marshal j (minijail_size j))) = minijail_size j \<and>
      length (fst (minijail_marshal j cap)) = min cap (minijail_size j))"
proof -
  have pos: "0 < minijail_size j"
    by (simp add: minijail_size_wire wire_size_def sizeof_minijail_def)
  have a: "snd (minijail_marshal j cap) = 0 \<longleftrightarrow> minijail_size j \<le> cap"
    by (simp add: marshal_result)
  have b: "snd (minijail_marshal j (minijail_size j)) = 0"
    by (simp add: marshal_result)
  have c: "snd (minijail_marshal j (minijail_size j - 1)) \<noteq> 0"
    using pos by (simp add: marshal_result)
  have w: "minijail_size j = wire_size j"
    by (rule minijail_size_wire)
  have d: "fst (minijail_marshal j cap) = take cap (serialization j)
           \<and> fst (minijail_marshal j (minijail_size j)) = serialization j
           \<and> length (serialization j) = minijail_size j
           \<and> fst (minijail_marshal j cap) = take cap (fst (minijail_marshal j (minijail_size j)))
           \<and> length (fst (minijail_marshal j (minijail_size j))) = minijail_size j
           \<and> length (fst (minijail_marshal j cap)) = min cap (minijail_size j)"
    if "filter_array_ok j"
    using marshal_buf [OF that] by (simp add: min.commute)
  from a b c w d show ?thesis
    by blast
qed

theorem marshal_size_agreement_witness:
  "minijail_size (minijail_new\<lparr>flags := no_flags\<lparr>f_seccomp_filter := True\<rparr>, filter_len := 1,
      filter_prog := Ptr 64 \<lparr>fp_len = 1, fp_filter = ''ABCDEFGH''\<rparr>\<rparr>) = 120 \<and>
   snd (minijail_marshal (minijail_new\<lparr>flags := no_flags\<lparr>f_seccomp_filter := True\<rparr>,
      filter_len := 1, filter_prog := Ptr 64 \<lparr>fp_len = 1, fp_filter = ''ABCDEFGH''\<rparr>\<rparr>) 119) \<noteq> 0 \<and>
   length (fst (minijail_marshal (minijail_new\<lparr>flags := no_flags\<lparr>f_seccomp_filter := True\<rparr>,
      filter_len := 1, filter_prog := Ptr 64 \<lparr>fp_len = 1, fp_filter = ''ABCDEFGH''\<rparr>\<rparr>) 119))
     = 119 \<and>
   drop 112 (fst (minijail_marshal (minijail_new\<lparr>flags := no_flags\<lparr>f_seccomp_filter := True\<rparr>,
      filter_len := 1, filter_prog := Ptr 64 \<lparr>fp_len = 1, fp_filter = ''ABCDEFGH''\<rparr>\<rparr>) 119))
     = ''ABCDEFG''"
proof -
  let ?j = "minijail_new\<lparr>flags := no_flags\<lparr>f_seccomp_filter := True\<rparr>, filter_len := 1,
      filter_prog := Ptr 64 \<lparr>fp_len = 1, fp_filter = ''ABCDEFGH''\<rparr>\<rparr>"
  have ok: "filter_array_ok ?j"
    by (simp add: filter_array_ok_def)
  have sz: "wire_size ?j = 120"
    by (simp add: wire_size_def sizeof_minijail_def minijail_new_def)
  have img: "drop 112 (take 119 (serialization ?j)) = ''ABCDEFG''"
    by (simp add: serialization_def str_opt_def filter_part_def minijail_new_def)
  from marshal_size_agreement [of ?j 119] ok sz img show ?thesis
    by simp
qed

subsection \<open>The round trip through the image\<close>

lemma le_val_le_bytes: "le_val (le_bytes n v) = v mod 256 ^ n"
proof (induction n arbitrary: v)
  case 0
  show ?case by simp
next
  case (Suc n)
  have "v mod 256 + 256 * (v div 256 mod 256 ^ n) = v mod (256 * 256 ^ n)"
    by (simp add: mod_mult2_eq)
  then show ?case
    by (simp add: Suc.IH of_char_of)
qed

lemma rd32_le32: "rd32 0 (le32 w @ xs) = w"
proof -
  have "unat w < 256 ^ 4"
    using unsigned_less [of w, where 'a = nat] by simp
  then show ?thesis
    by (simp add: rd32_def le32_def le_val_le_bytes)
qed

lemma rd64_le64: "rd64 0 (le64 w @ xs) = w"
proof -
  have "unat w < 256 ^ 8"
    using unsigned_less [of w, where 'a = nat] by simp
  then show ?thesis
    by (simp add: rd64_def le64_def le_val_le_bytes)
qed

lemma rd32_skip: "length p = off \<Longrightarrow> rd32 off (p @ xs) = rd32 0 xs"
  by (simp add: rd32_def)

lemma rd64_skip: "length p = off \<Longrightarrow> rd64 off (p @ xs) = rd64 0 xs"
  by (simp add: rd64_def)

lemma val_le32 [simp]: "of_nat (le_val (le32 w)) = w"
  using rd32_le32 [of w "[]"] by (simp add: rd32_def)

lemma val_le64 [simp]: "of_nat (le_val (le64 w)) = w"
  using rd64_le64 [of w "[]"] by (simp add: rd64_def)

lemma rd_struct:
  "rd32 4 (struct_image j) = uid j"
  "rd32 8 (struct_image j) = gid j"
  "rd32 12 (struct_image j) = usergid j"
  "rd64 16 (struct_image j) = ptr_word (user j)"
  "rd64 24 (struct_image j) = caps j"
  "rd32 32 (struct_image j) = initpid j"
  "rd32 36 (struct_image j) = filter_len j"
  "rd32 40 (struct_image j) = binding_count j"
  "rd64 48 (struct_image j) = ptr_word (chrootdir j)"
  "rd64 56 (struct_image j) = ptr_word (chdir j)"
  "rd32 88 (struct_image j) = stack_limit j"
  "rd32 92 (struct_image j) = time_limit j"
  "rd32 96 (struct_image j) = memory_limit j"
  "rd32 100 (struct_image j) = output_limit j"
  by (simp_all add: struct_image_def rd32_def rd64_def)

lemma rd_flags_struct: "rd_flags (struct_image j) = flags j"
  by (simp add: struct_image_def rd_flags_def flag_bytes_def)

lemma NUL_notin_cstr: "NUL \<notin> set (cstr s)"
  by (auto simp: cstr_def dest: set_takeWhileD)

lemma cstr_id: "NUL \<notin> set s \<Longrightarrow> cstr s = s"
  by (auto simp: cstr_def takeWhile_eq_all_conv)

lemma cstr_str_mem: "cstr (str_mem s @ xs) = cstr s"
proof -
  have "takeWhile (\<lambda>c. c \<noteq> NUL) (cstr s @ NUL # xs) = cstr s"
    using NUL_notin_cstr [of s] by (subst takeWhile_append2) auto
  moreover have "cstr (str_mem s @ xs) = takeWhile (\<lambda>c. c \<noteq> NUL) (cstr s @ NUL # xs)"
    unfolding str_mem_def by (subst cstr_def) simp
  ultimately show ?thesis
    by simp
qed

lemma consumestr_str_mem: "consumestr (str_mem s @ xs) = Some (str_mem s, xs)"
proof -
  have "strlen (str_mem s @ xs) = strlen s"
    by (simp add: strlen_def cstr_str_mem)
  then show ?thesis
    by (simp add: consumestr_def consumebytes_def Let_def)
qed

lemma plenty_alloc:
  assumes "plenty (Suc n) h"
  obtains a h' where "alloc h = (a, h')" "a \<noteq> 0" "plenty n h'" "a \<in> set h" "set h' \<subseteq> set h"
  using assms by (cases h) (auto simp: plenty_def alloc_def)

lemma plenty_mono: "plenty n h \<Longrightarrow> m \<le> n \<Longrightarrow> plenty m h"
  by (simp add: plenty_def)

lemma um_string_ok:
  assumes "ptr_ok p" "plenty (Suc n) h"
  shows "\<exists>q h'. um_string (ptr_word p) (str_opt p @ xs) h e = Ok (q, xs, h') \<and>
           ptr_val q = ptr_val p \<and> plenty n h' \<and> set h' \<subseteq> set h \<and>
           ptr_word q \<in> insert 0 (set h)"
proof (cases p)
  case Null
  with assms show ?thesis
    by (auto simp: um_string_def ptr_word_def str_opt_def ptr_val_def plenty_def)
next
  case (Ptr a s)
  with assms(1) have a: "a \<noteq> 0" "cstr s = s"
    by (simp_all add: ptr_ok_def cstr_id)
  from assms(2) obtain b h' where
    h: "alloc h = (b, h')" "b \<noteq> 0" "plenty n h'" "b \<in> set h" "set h' \<subseteq> set h"
    by (rule plenty_alloc)
  have "cstr (str_mem s) = s"
    using cstr_str_mem [of s "[]"] a by simp
  with Ptr a h show ?thesis
    by (simp add: um_string_def ptr_word_def str_opt_def ptr_val_def consumestr_str_mem)
qed

lemma sint_of_nat32:
  assumes "n < 2 ^ 31"
  shows "sint (of_nat n :: 32 word) = int n"
proof -
  have "unat (of_nat n :: 32 word) = n"
    using assms by (simp add: unat_of_nat)
  then have "uint (of_nat n :: 32 word) = int n"
    by (metis uint_nat)
  moreover have "signed_take_bit 31 (int n) = int n"
    using assms by (intro signed_take_bit_int_eq_self) simp_all
  ultimately show ?thesis
    by (simp add: sint_uint)
qed

lemma unat16: "unat (w :: 16 word) < 65536"
  using unsigned_less [of w, where 'a = nat] by simp

lemma sint_ucast16: "sint (ucast (w :: 16 word) :: 32 word) = int (unat w)"
proof -
  have "(ucast w :: 32 word) = of_nat (unat w)"
    by simp
  moreover have "unat w < 2 ^ 31"
    using unat16 [of w] by simp
  ultimately show ?thesis
    by (simp only: sint_of_nat32)
qed

lemma um_filter_ok:
  assumes "filter_wf j" "plenty (Suc (Suc n)) h"
  shows "\<exists>q h'. um_filter (flags j) (filter_len j) (filter_part j @ xs) h = Ok (q, xs, h') \<and>
           ptr_val q = (if f_seccomp_filter (flags j) \<and> 0 < sint (filter_len j)
                        then ptr_val (filter_prog j) else None) \<and>
           plenty n h' \<and> set h' \<subseteq> set h \<and> ptr_word q \<in> insert 0 (set h)"
proof (cases "f_seccomp_filter (flags j) \<and> 0 < sint (filter_len j)")
  case False
  have e: "filter_part j = []"
  proof (cases "filter_prog j")
    case Null
    then show ?thesis by (simp add: filter_part_def)
  next
    case (Ptr a fp)
    with assms(1) have s: "sint (filter_len j) = int (unat (fp_len fp))"
      by (simp add: filter_wf_def fprog_wf_def sint_ucast16 del: of_nat_unat)
    show ?thesis
    proof (cases "f_seccomp_filter (flags j)")
      case True
      with False s have "int (unat (fp_len fp)) \<le> 0"
        by linarith
      then have "unat (fp_len fp) = 0"
        by linarith
      with Ptr show ?thesis
        by (simp add: filter_part_def)
    next
      case False
      with Ptr show ?thesis
        by (simp add: filter_part_def)
    qed
  qed
  from False e assms(2) show ?thesis
    by (auto simp: um_filter_def ptr_val_def ptr_word_def plenty_def)
next
  case True
  then obtain a fp where p: "filter_prog j = Ptr a fp"
    using assms(1) by (cases "filter_prog j") (auto simp: filter_wf_def fprog_wf_def)
  with assms(1) have fl: "filter_len j = ucast (fp_len fp)"
    and len: "length (fp_filter fp) = unat (fp_len fp) * 8"
    by (simp_all add: filter_wf_def fprog_wf_def)
  have s: "sint (filter_len j) = int (unat (fp_len fp))"
    unfolding fl by (rule sint_ucast16)
  have n: "nat (sint (filter_len j)) = unat (fp_len fp)"
    by (simp add: s del: of_nat_unat)
  have part: "filter_part j = fp_filter fp"
    using True p len by (simp add: filter_part_def)
  from assms(2) obtain b h1 where
    h1: "alloc h = (b, h1)" "b \<noteq> 0" "plenty (Suc n) h1" "b \<in> set h" "set h1 \<subseteq> set h"
    by (rule plenty_alloc)
  from h1(3) obtain c h2 where
    h2: "alloc h1 = (c, h2)" "c \<noteq> 0" "plenty n h2" "c \<in> set h1" "set h2 \<subseteq> set h1"
    by (rule plenty_alloc)
  have small: "\<not> (unat (fp_len fp) > SIZE_MAX div 8 \<or> unat (fp_len fp) > USHRT_MAX)"
    using unat16 [of "fp_len fp"] by (simp add: SIZE_MAX_def USHRT_MAX_def)
  have cb: "consumebytes (unat (fp_len fp) * 8) (fp_filter fp @ xs) = Some (fp_filter fp, xs)"
    using len by (simp add: consumebytes_def)
  have eq: "\<lparr>fp_len = of_nat (unat (fp_len fp)), fp_filter = fp_filter fp\<rparr> = fp"
    by simp
  have "um_filter (flags j) (filter_len j) (filter_part j @ xs) h = Ok (Ptr b fp, xs, h2)"
    using True small cb h1(1,2) h2(1,2)
    by (simp add: um_filter_def n part Let_def eq del: of_nat_unat)
  with True p h1 h2 show ?thesis
    by (auto simp: ptr_val_def ptr_word_def)
qed

lemma consumebytes_le32: "consumebytes 4 (le32 w @ xs) = Some (le32 w, xs)"
  by (simp add: consumebytes_def)

lemma bind_str_mem:
  assumes "binding_ok b" "plenty (Suc (Suc (Suc n))) h"
  shows "\<exists>a h'. minijail_bind j (str_mem (src b)) (str_mem (dest b)) (writeable b) h =
           (Ret 0 (j\<lparr>flags := (flags j)\<lparr>f_vfs := True\<rparr>,
                     bindings := bindings j @ [b\<lparr>b_addr := a\<rparr>],
                     binding_count := binding_count j + 1\<rparr>), h') \<and>
           plenty n h' \<and> a \<in> set h \<and> set h' \<subseteq> set h"
proof -
  from assms(2) obtain a h1 where
    h1: "alloc h = (a, h1)" "a \<noteq> 0" "plenty (Suc (Suc n)) h1" "a \<in> set h" "set h1 \<subseteq> set h"
    by (rule plenty_alloc)
  from h1(3) obtain c h2 where
    h2: "alloc h1 = (c, h2)" "c \<noteq> 0" "plenty (Suc n) h2" "c \<in> set h1" "set h2 \<subseteq> set h1"
    by (rule plenty_alloc)
  from h2(3) obtain d h3 where
    h3: "alloc h2 = (d, h3)" "d \<noteq> 0" "plenty n h3" "d \<in> set h2" "set h3 \<subseteq> set h2"
    by (rule plenty_alloc)
  have s: "cstr (str_mem (src b)) = src b" "cstr (str_mem (dest b)) = dest b"
    using cstr_str_mem [of "src b" "[]"] cstr_str_mem [of "dest b" "[]"] assms(1)
    by (simp_all add: binding_ok_def cstr_id)
  have "dest b \<noteq> []"
    using assms(1) by (auto simp: binding_ok_def)
  then have "take 1 (str_mem (dest b)) = ''/''"
    using assms(1) by (cases "dest b") (auto simp: binding_ok_def str_mem_def cstr_id)
  then have "minijail_bind j (str_mem (src b)) (str_mem (dest b)) (writeable b) h =
           (Ret 0 (j\<lparr>flags := (flags j)\<lparr>f_vfs := True\<rparr>,
                     bindings := bindings j @ [b\<lparr>b_addr := a\<rparr>],
                     binding_count := binding_count j + 1\<rparr>), h3)"
    using h1(1,2) h2(1,2) h3(1,2) s
    by (simp add: minijail_bind_def minijail_namespace_vfs_def)
  with h1 h2 h3 show ?thesis
    by auto
qed

lemma um_bindings_ok:
  assumes "\<forall>b \<in> set bs. binding_ok b" "plenty (3 * length bs) h"
  shows "\<exists>bs'. um_bindings (length bs) j (concat (map binding_bytes bs) @ xs) h =
           Ok (j\<lparr>flags := (if bs = [] then flags j else (flags j)\<lparr>f_vfs := True\<rparr>),
                 bindings := bindings j @ bs',
                 binding_count := binding_count j + of_nat (length bs)\<rparr>) \<and>
           map content bs' = map content bs \<and> b_addr ` set bs' \<subseteq> set h"
  using assms
proof (induction bs arbitrary: j h)
  case Nil
  show ?case by simp
next
  case (Cons b bs)
  have ok: "binding_ok b" and rest: "\<forall>b \<in> set bs. binding_ok b"
    using Cons.prems(1) by simp_all
  have "plenty (Suc (Suc (Suc (3 * length bs)))) h"
    using Cons.prems(2) by (simp add: plenty_def)
  from bind_str_mem [OF ok this, of j] obtain a h' where
    b: "minijail_bind j (str_mem (src b)) (str_mem (dest b)) (writeable b) h =
           (Ret 0 (j\<lparr>flags := (flags j)\<lparr>f_vfs := True\<rparr>,
                     bindings := bindings j @ [b\<lparr>b_addr := a\<rparr>],
                     binding_count := binding_count j + 1\<rparr>), h')"
    and h': "plenty (3 * length bs) h'" "a \<in> set h" "set h' \<subseteq> set h"
    by blast
  let ?j1 = "j\<lparr>flags := (flags j)\<lparr>f_vfs := True\<rparr>,
                bindings := bindings j @ [b\<lparr>b_addr := a\<rparr>],
                binding_count := binding_count j + 1\<rparr>"
  from Cons.IH [OF rest h'(1), of ?j1] obtain bs' where
    ih: "um_bindings (length bs) ?j1 (concat (map binding_bytes bs) @ xs) h' =
           Ok (?j1\<lparr>flags := (if bs = [] then flags ?j1 else (flags ?j1)\<lparr>f_vfs := True\<rparr>),
                 bindings := bindings ?j1 @ bs',
                 binding_count := binding_count ?j1 + of_nat (length bs)\<rparr>)"
    and c: "map content bs' = map content bs" "b_addr ` set bs' \<subseteq> set h'"
    by blast
  have step: "um_bindings (length (b # bs)) j (concat (map binding_bytes (b # bs)) @ xs) h =
        um_bindings (length bs) ?j1 (concat (map binding_bytes bs) @ xs) h'"
    by (simp add: binding_bytes_def consumestr_str_mem consumebytes_le32 rd32_le32
          [of _ "[]", simplified] b)
  have "um_bindings (length (b # bs)) j (concat (map binding_bytes (b # bs)) @ xs) h =
          Ok (j\<lparr>flags := (flags j)\<lparr>f_vfs := True\<rparr>,
                bindings := bindings j @ (b\<lparr>b_addr := a\<rparr> # bs'),
                binding_count := binding_count j + of_nat (length (b # bs))\<rparr>)"
    unfolding step ih by (simp add: add.assoc)
  moreover have "map content (b\<lparr>b_addr := a\<rparr> # bs') = map content (b # bs)"
    using c(1) by (simp add: content_def)
  moreover have "b_addr ` set (b\<lparr>b_addr := a\<rparr> # bs') \<subseteq> set h"
    using c(2) h'(2,3) by auto
  ultimately show ?case
    by (intro exI [of _ "b\<lparr>b_addr := a\<rparr> # bs'"]) simp
qed

lemma take1_cstr: "take (Suc 0) d = ''/'' \<Longrightarrow> take (Suc 0) (cstr d) = ''/''"
  by (cases d) (auto simp: cstr_def NUL_def)

lemma vfs_idem: "f_vfs f \<Longrightarrow> f\<lparr>f_vfs := True\<rparr> = f"
  by (cases f) simp

lemma wf_new: "wf_policy minijail_new"
  by (simp add: wf_policy_def minijail_new_def ptr_ok_def filter_wf_def fprog_wf_def)

lemma wf_fields [simp]:
  "wf_policy (j\<lparr>uid := u\<rparr>) = wf_policy j"
  "wf_policy (j\<lparr>gid := g\<rparr>) = wf_policy j"
  "wf_policy (j\<lparr>usergid := g\<rparr>) = wf_policy j"
  "wf_policy (j\<lparr>caps := m\<rparr>) = wf_policy j"
  "wf_policy (j\<lparr>stack_limit := n\<rparr>) = wf_policy j"
  "wf_policy (j\<lparr>time_limit := n\<rparr>) = wf_policy j"
  "wf_policy (j\<lparr>memory_limit := n\<rparr>) = wf_policy j"
  "wf_policy (j\<lparr>output_limit := n\<rparr>) = wf_policy j"
  "wf_policy (j\<lparr>meta_file := p\<rparr>) = wf_policy j"
  by (simp_all add: wf_policy_def filter_wf_def)

lemma wf_flags:
  "wf_policy j \<Longrightarrow> (f_vfs (flags j) \<longrightarrow> f_vfs f) \<Longrightarrow> wf_policy (j\<lparr>flags := f\<rparr>)"
  by (simp add: wf_policy_def filter_wf_def)

lemma wf_string:
  assumes "wf_policy j" "ptr_ok p"
  shows "wf_policy (j\<lparr>user := p\<rparr>)" "wf_policy (j\<lparr>chrootdir := p\<rparr>)"
    "wf_policy (j\<lparr>chdir := p\<rparr>)"
  using assms by (simp_all add: wf_policy_def filter_wf_def)

lemma ptr_ok_simps [simp]: "ptr_ok Null" "ptr_ok (Ptr a s) \<longleftrightarrow> a \<noteq> 0 \<and> NUL \<notin> set s"
  by (simp_all add: ptr_ok_def)

lemma wf_bind:
  assumes "wf_policy j" "take (Suc 0) d = ''/''"
  shows "wf_policy (j\<lparr>flags := (flags j)\<lparr>f_vfs := True\<rparr>,
           bindings := bindings j @ [\<lparr>b_addr = a, src = cstr s, dest = cstr d, writeable = w\<rparr>],
           binding_count := binding_count j + 1\<rparr>)"
  using assms
  by (simp add: wf_policy_def filter_wf_def binding_ok_def NUL_notin_cstr take1_cstr)

lemma wf_filter:
  assumes "wf_policy j" "length (fp_filter fp) = unat (fp_len fp) * 8"
  shows "wf_policy (j\<lparr>filter_len := ucast (fp_len fp), filter_prog := Ptr a fp\<rparr>)"
  using assms by (simp add: wf_policy_def filter_wf_def fprog_wf_def)

lemma apply_call_wf:
  assumes "apply_call c j = Ret r j'" "call_ok c" "wf_policy j"
  shows "wf_policy j'"
proof (cases c)
  case (Bind s d w h)
  with assms show ?thesis
    by (auto simp: minijail_bind_def minijail_namespace_vfs_def wf_bind
          split: if_splits prod.splits)
next
  case (Parse_seccomp_filters p ok h fc)
  with assms show ?thesis
    by (cases fc)
       (auto simp: minijail_parse_seccomp_filters_def void_def wf_filter
          split: if_splits prod.splits)
next
  case (Change_user n h ppw)
  with assms show ?thesis
    by (auto simp: minijail_change_user_def minijail_change_uid_def wf_string wf_flags
          NUL_notin_cstr split: if_splits prod.splits option.splits)
next
  case (Change_group n h pgr)
  with assms show ?thesis
    by (auto simp: minijail_change_group_def minijail_change_gid_def wf_flags
          split: if_splits prod.splits option.splits)
next
  case (Enter_chroot d h)
  with assms show ?thesis
    by (auto simp: minijail_enter_chroot_def wf_string wf_flags NUL_notin_cstr
          split: if_splits prod.splits)
next
  case (Chroot_chdir d h)
  with assms show ?thesis
    by (auto simp: minijail_chroot_chdir_def wf_string wf_flags NUL_notin_cstr
          split: if_splits prod.splits option.splits)
next
  case (Meta_file p fp)
  with assms show ?thesis
    by (auto simp: minijail_meta_file_def wf_flags Let_def split: if_splits)
next
  case (Change_uid u)
  with assms show ?thesis
    by (auto simp: minijail_change_uid_def void_def wf_flags split: if_splits)
next
  case (Change_gid g)
  with assms show ?thesis
    by (auto simp: minijail_change_gid_def void_def wf_flags split: if_splits)
qed (use assms in \<open>auto simp: minijail_use_seccomp_def minijail_no_new_privs_def
       minijail_use_seccomp_filter_def minijail_log_seccomp_filter_failures_def
       minijail_use_caps_def minijail_namespace_vfs_def minijail_namespace_pids_def
       minijail_namespace_net_def minijail_remount_readonly_def
       minijail_inherit_usergroups_def minijail_disable_ptrace_def minijail_mount_tmp_def
       minijail_stack_limit_def minijail_time_limit_def minijail_output_limit_def
       minijail_memory_limit_def wf_flags\<close>)

lemma run_calls_wf:
  "run_calls cs j = Some j' \<Longrightarrow> \<forall>c \<in> set cs. call_ok c \<Longrightarrow> wf_policy j \<Longrightarrow> wf_policy j'"
proof (induction cs arbitrary: j)
  case Nil
  then show ?case by simp
next
  case (Cons c cs)
  then show ?case
    by (auto split: outcome.splits dest: apply_call_wf)
qed

lemma unmarshal_serialization:
  assumes wf: "wf_policy j" and n: "length (bindings j) < 2 ^ 31"
    and h: "plenty (5 + 3 * length (bindings j)) h"
  shows "\<exists>j'. minijail_unmarshal (serialization j) h = Ok j' \<and> reproduces j' j \<and>
           owned_from h j'"
proof -
  let ?s1 = "str_opt (chrootdir j) @ str_opt (chdir j) @ filter_part j @
             concat (map binding_bytes (bindings j))"
  let ?s2 = "str_opt (chdir j) @ filter_part j @ concat (map binding_bytes (bindings j))"
  let ?s3 = "filter_part j @ concat (map binding_bytes (bindings j))"
  let ?s4 = "concat (map binding_bytes (bindings j))"
  from wf have ok: "ptr_ok (user j)" "ptr_ok (chrootdir j)" "ptr_ok (chdir j)" "filter_wf j"
    "\<forall>b \<in> set (bindings j). binding_ok b" "binding_count j = of_nat (length (bindings j))"
    "bindings j \<noteq> [] \<longrightarrow> f_vfs (flags j)"
    by (simp_all add: wf_policy_def)
  have h0: "plenty (Suc (4 + 3 * length (bindings j))) h"
    using h by (simp add: plenty_def)
  from um_string_ok [OF ok(1) h0, of ?s1] obtain q1 h1 where
    u1: "um_string (ptr_word (user j)) (str_opt (user j) @ ?s1) h (Failed (- EINVAL)) =
           Ok (q1, ?s1, h1)"
    and v1: "ptr_val q1 = ptr_val (user j)" "set h1 \<subseteq> set h" "ptr_word q1 \<in> insert 0 (set h)"
    and p1: "plenty (4 + 3 * length (bindings j)) h1"
    by blast
  have p1': "plenty (Suc (3 + 3 * length (bindings j))) h1"
    using p1 by (simp add: plenty_def)
  from um_string_ok [OF ok(2) p1', of ?s2] obtain q2 h2 where
    u2: "um_string (ptr_word (chrootdir j)) (str_opt (chrootdir j) @ ?s2) h1
           (Failed (- EINVAL)) = Ok (q2, ?s2, h2)"
    and v2: "ptr_val q2 = ptr_val (chrootdir j)" "set h2 \<subseteq> set h1"
      "ptr_word q2 \<in> insert 0 (set h1)"
    and p2: "plenty (3 + 3 * length (bindings j)) h2"
    by blast
  have p2': "plenty (Suc (2 + 3 * length (bindings j))) h2"
    using p2 by (simp add: plenty_def)
  from um_string_ok [OF ok(3) p2', of ?s3] obtain q3 h3 where
    u3: "um_string (ptr_word (chdir j)) (str_opt (chdir j) @ ?s3) h2 Crashed =
           Ok (q3, ?s3, h3)"
    and v3: "ptr_val q3 = ptr_val (chdir j)" "set h3 \<subseteq> set h2"
      "ptr_word q3 \<in> insert 0 (set h2)"
    and p3: "plenty (2 + 3 * length (bindings j)) h3"
    by blast
  have p3': "plenty (Suc (Suc (3 * length (bindings j)))) h3"
    using p3 by (simp add: plenty_def)
  from um_filter_ok [OF ok(4) p3', of ?s4] obtain q4 h4 where
    u4: "um_filter (flags j) (filter_len j) (filter_part j @ ?s4) h3 = Ok (q4, ?s4, h4)"
    and v4: "ptr_val q4 = (if f_seccomp_filter (flags j) \<and> 0 < sint (filter_len j)
                           then ptr_val (filter_prog j) else None)"
      "set h4 \<subseteq> set h3" "ptr_word q4 \<in> insert 0 (set h3)"
    and p4: "plenty (3 * length (bindings j)) h4"
    by blast
  let ?j0 = "\<lparr>flags = flags j, uid = uid j, gid = gid j, usergid = usergid j, user = q1,
       caps = caps j, initpid = initpid j, filter_len = filter_len j, binding_count = 0,
       chrootdir = q2, chdir = q3, filter_prog = q4, bindings = [],
       stack_limit = stack_limit j, time_limit = time_limit j,
       memory_limit = memory_limit j, output_limit = output_limit j, meta_file = Null\<rparr>"
  from um_bindings_ok [OF ok(5) p4, of ?j0 "[]"] obtain bs' where
    u5: "um_bindings (length (bindings j)) ?j0 ?s4 h4 =
           Ok (?j0\<lparr>flags := (if bindings j = [] then flags ?j0
                                else (flags ?j0)\<lparr>f_vfs := True\<rparr>),
                 bindings := bindings ?j0 @ bs',
                 binding_count := binding_count ?j0 + of_nat (length (bindings j))\<rparr>)"
    and v5: "map content bs' = map content (bindings j)" "b_addr ` set bs' \<subseteq> set h4"
    by auto
  have cnt: "nat (sint (binding_count j)) = length (bindings j)"
    using n by (simp add: ok(6) sint_of_nat32)
  have fl: "bindings j \<noteq> [] \<Longrightarrow> (flags j)\<lparr>f_vfs := True\<rparr> = flags j"
    using ok(7) by (simp add: vfs_idem)
  have ser: "serialization j = struct_image j @ str_opt (user j) @ ?s1"
    by (simp add: serialization_def)
  let ?j' = "?j0\<lparr>flags := (if bindings j = [] then flags ?j0
                                else (flags ?j0)\<lparr>f_vfs := True\<rparr>),
                 bindings := bindings ?j0 @ bs',
                 binding_count := binding_count ?j0 + of_nat (length (bindings j))\<rparr>"
  have "minijail_unmarshal (serialization j) h = Ok ?j'"
    unfolding minijail_unmarshal_def ser
    by (simp add: sizeof_minijail_def Let_def rd_struct rd_flags_struct res_bind_def
          u1 u2 u3 u4 cnt u5)
  moreover have "reproduces ?j' j"
    using v1(1) v2(1) v3(1) v4(1) v5(1) fl by (simp add: reproduces_def ok(6))
  moreover have "owned_from h ?j'"
  proof -
    have sub: "set h1 \<subseteq> set h" "set h2 \<subseteq> set h" "set h3 \<subseteq> set h" "set h4 \<subseteq> set h"
      using v1(2) v2(2) v3(2) v4(2) by blast+
    have o2: "ptr_word q2 \<in> insert 0 (set h)"
      using v2(3) sub(1) by blast
    have o3: "ptr_word q3 \<in> insert 0 (set h)"
      using v3(3) sub(2) by blast
    have o4: "ptr_word q4 \<in> insert 0 (set h)"
      using v4(3) sub(3) by blast
    have o5: "b_addr ` set bs' \<subseteq> set h"
      using v5(2) sub(4) by blast
    show ?thesis
      unfolding owned_from_def using v1(3) o2 o3 o4 o5 by simp
  qed
  ultimately show ?thesis
    by blast
qed

lemma filter_wf_array_ok: "filter_wf j \<Longrightarrow> filter_array_ok j"
  by (cases "filter_prog j") (simp_all add: filter_wf_def fprog_wf_def filter_array_ok_def)

lemma marshal_whole:
  assumes "wf_policy j"
  shows "fst (minijail_marshal j (minijail_size j)) = serialization j"
proof -
  have "filter_array_ok j"
    using assms by (simp add: wf_policy_def filter_wf_array_ok)
  from marshal_buf [OF this] show ?thesis
    by simp
qed

lemma ptr_val_None: "ptr_val p = None \<longleftrightarrow> p = Null"
  by (cases p) (simp_all add: ptr_val_def)

lemma ptr_val_Null: "ptr_val Null = None"
  by (simp add: ptr_val_def)

text \<open>
  C1, as the code has it. Let the policy \<open>j\<close> be built by builder calls from a new
  policy, the external compiler having stored well-formed programs, with fewer than
  \<open>2 ^ 31\<close> bindings, and let the allocations of the receiver succeed. Then
  \<^verbatim>\<open>minijail_unmarshal\<close> of the image that \<^verbatim>\<open>minijail_marshal\<close> writes into a buffer of
  exactly \<^verbatim>\<open>minijail_size\<close> bytes succeeds, and its policy has the flags, uid, gid, usergid,
  caps, initpid, filter length, binding count and limits of \<open>j\<close>, equal optional
  strings, and the bindings of \<open>j\<close> in order; the filter program of \<open>j\<close> when the
  flag \<open>seccomp_filter\<close> is set and the filter length is positive, and no program
  otherwise; no meta file; and every pointer of it is NULL or comes from the receiver's
  allocator.
\<close>

theorem marshal_unmarshal_round_trip:
  assumes "run_calls cs minijail_new = Some j" and "\<forall>c \<in> set cs. call_ok c"
    and "length (bindings j) < 2 ^ 31" and "plenty (5 + 3 * length (bindings j)) h"
  shows "\<exists>j'. minijail_unmarshal (fst (minijail_marshal j (minijail_size j))) h = Ok j' \<and>
           reproduces j' j \<and> owned_from h j'"
proof -
  have wf: "wf_policy j"
    using run_calls_wf [OF assms(1,2) wf_new] .
  show ?thesis
    unfolding marshal_whole [OF wf]
    using unmarshal_serialization [OF wf assms(3,4)] .
qed

theorem marshal_unmarshal_round_trip_witness:
  "\<exists>j j'. run_calls
       [Change_user ''u'' [1, 2] (Some (1000, 100)), Enter_chroot ''/jail'' [3],
        Chroot_chdir (Some ''/home'') [4], Bind ''/x'' ''/a'' 0 [5, 6, 7],
        Bind ''/y'' ''/a/b'' 1 [8, 9, 10],
        Parse_seccomp_filters ''p'' True [11] (Some \<lparr>fp_len = 1, fp_filter = ''ABCDEFGH''\<rparr>),
        Use_seccomp_filter] minijail_new = Some j \<and>
     minijail_unmarshal (fst (minijail_marshal j (minijail_size j)))
       [21, 22, 23, 24, 25, 26, 27, 28, 29, 30, 31] = Ok j' \<and>
     map content (bindings j') = [(''/x'', ''/a'', 0), (''/y'', ''/a/b'', 1)] \<and>
     ptr_val (user j') = Some ''u'' \<and> ptr_val (chrootdir j') = Some ''/jail'' \<and>
     ptr_val (chdir j') = Some ''/home'' \<and>
     ptr_val (filter_prog j') = Some \<lparr>fp_len = 1, fp_filter = ''ABCDEFGH''\<rparr> \<and>
     uid j' = 1000 \<and> usergid j' = 100"
proof -
  let ?cs = "[Change_user ''u'' [1, 2] (Some (1000, 100)), Enter_chroot ''/jail'' [3],
        Chroot_chdir (Some ''/home'') [4], Bind ''/x'' ''/a'' 0 [5, 6, 7],
        Bind ''/y'' ''/a/b'' 1 [8, 9, 10],
        Parse_seccomp_filters ''p'' True [11] (Some \<lparr>fp_len = 1, fp_filter = ''ABCDEFGH''\<rparr>),
        Use_seccomp_filter]"
  let ?h = "[21, 22, 23, 24, 25, 26, 27, 28, 29, 30, 31] :: heap"
  obtain j where j: "run_calls ?cs minijail_new = Some j"
    and b: "map content (bindings j) = [(''/x'', ''/a'', 0), (''/y'', ''/a/b'', 1)]"
    and f: "ptr_val (user j) = Some ''u''" "ptr_val (chrootdir j) = Some ''/jail''"
      "ptr_val (chdir j) = Some ''/home''"
      "ptr_val (filter_prog j) = Some \<lparr>fp_len = 1, fp_filter = ''ABCDEFGH''\<rparr>"
      "uid j = 1000" "usergid j = 100" "f_seccomp_filter (flags j)" "filter_len j = 1"
    by (simp add: builder_defs alloc_def cstr_def NUL_def minijail_new_def content_def
          ptr_val_def)
  have ok: "\<forall>c \<in> set ?cs. call_ok c"
    by simp
  have n: "length (bindings j) < 2 ^ 31"
    using arg_cong [OF b, of length] by simp
  have p: "plenty (5 + 3 * length (bindings j)) ?h"
    using arg_cong [OF b, of length] by (simp add: plenty_def)
  from marshal_unmarshal_round_trip [OF j ok n p] obtain j' where
    "minijail_unmarshal (fst (minijail_marshal j (minijail_size j))) ?h = Ok j'"
    "reproduces j' j"
    by blast
  with j b f show ?thesis
    by (auto simp: reproduces_def)
qed

text \<open>The claim fails for a policy that holds a compiled filter while the flag
  \<open>seccomp_filter\<close> is clear: the program is not in the image, and the policy read back
  has none.\<close>

theorem marshal_unmarshal_round_trip_counterexample:
  "run_calls [Parse_seccomp_filters ''p'' True [64] (Some \<lparr>fp_len = 1, fp_filter = ''ABCDEFGH''\<rparr>)]
     minijail_new =
     Some (minijail_new\<lparr>filter_len := 1,
             filter_prog := Ptr 64 \<lparr>fp_len = 1, fp_filter = ''ABCDEFGH''\<rparr>\<rparr>) \<and>
   minijail_unmarshal
     (fst (minijail_marshal
        (minijail_new\<lparr>filter_len := 1,
           filter_prog := Ptr 64 \<lparr>fp_len = 1, fp_filter = ''ABCDEFGH''\<rparr>\<rparr>)
        (minijail_size
           (minijail_new\<lparr>filter_len := 1,
              filter_prog := Ptr 64 \<lparr>fp_len = 1, fp_filter = ''ABCDEFGH''\<rparr>\<rparr>))))
     [1, 2, 3, 4, 5] =
     Ok (minijail_new\<lparr>filter_len := 1\<rparr>)"
proof -
  let ?j = "minijail_new\<lparr>filter_len := 1,
              filter_prog := Ptr 64 \<lparr>fp_len = 1, fp_filter = ''ABCDEFGH''\<rparr>\<rparr>"
  have r: "run_calls
      [Parse_seccomp_filters ''p'' True [64] (Some \<lparr>fp_len = 1, fp_filter = ''ABCDEFGH''\<rparr>)]
      minijail_new = Some ?j"
    by (simp add: minijail_parse_seccomp_filters_def void_def alloc_def)
  have wf: "wf_policy ?j"
    by (simp add: wf_policy_def filter_wf_def fprog_wf_def minijail_new_def)
  have "plenty (5 + 3 * length (bindings ?j)) [1, 2, 3, 4, 5]"
    by (simp add: plenty_def minijail_new_def)
  from unmarshal_serialization [OF wf _ this] obtain j' where
    u: "minijail_unmarshal (serialization ?j) [1, 2, 3, 4, 5] = Ok j'"
    and rep: "reproduces j' ?j"
    by (auto simp: minijail_new_def)
  have "j' = minijail_new\<lparr>filter_len := 1\<rparr>"
    using rep
    by (intro minijail.equality)
       (simp_all add: reproduces_def minijail_new_def no_flags_def ptr_val_Null ptr_val_None)
  with u r show ?thesis
    by (simp add: marshal_whole [OF wf])
qed

subsection \<open>The size limit of the policy pipe\<close>

lemma from_fd_too_big:
  assumes "8 \<le> length p" "USHRT_MAX < le_val (take 8 p)"
  shows "minijail_from_fd p h = (Failed (- E2BIG), drop 8 p)"
  using assms by (simp add: minijail_from_fd_def read_fd_def Let_def)

lemma to_fd_writes:
  assumes wf: "wf_policy j" and hw: "fst (alloc hw) \<noteq> 0"
    and room: "8 + minijail_size j \<le> room"
  shows "minijail_to_fd j hw ([], room) =
           (Ok (), (le_bytes 8 (minijail_size j) @ serialization j,
                    room - (8 + minijail_size j)))"
proof -
  have ok: "filter_array_ok j"
    using wf by (simp add: wf_policy_def filter_wf_array_ok)
  have pos: "minijail_size j \<noteq> 0"
    by (simp add: minijail_size_wire wire_size_def sizeof_minijail_def)
  have m: "minijail_marshal j (minijail_size j) = (serialization j, 0)"
    using marshal_whole [OF wf] marshal_result [of j "minijail_size j"]
    by (simp add: prod_eq_iff)
  have len: "length (serialization j) = minijail_size j"
    using marshal_buf(2) [OF ok] by simp
  obtain b h1 where a: "alloc hw = (b, h1)" "b \<noteq> 0"
    using hw by (cases "alloc hw") simp
  have w1: "write_fd ([], room) (le_bytes 8 (minijail_size j)) =
              (8, (le_bytes 8 (minijail_size j), room - 8))"
    using room by (simp add: write_fd_def min_def)
  have w2: "write_fd (le_bytes 8 (minijail_size j), room - 8) (serialization j) =
              (int (minijail_size j),
               (le_bytes 8 (minijail_size j) @ serialization j, room - (8 + minijail_size j)))"
    using room len pos by (auto simp: write_fd_def min_def)
  show ?thesis
    using pos a by (simp add: minijail_to_fd_def Let_def m w1 w2)
qed

text \<open>
  C10. \<^verbatim>\<open>minijail_from_fd\<close> answers every stream whose 8 size bytes announce more than
  \<^verbatim>\<open>USHRT_MAX\<close> with \<^verbatim>\<open>-E2BIG\<close> and leaves the body in the pipe. So for a policy built by
  builder calls with \<^verbatim>\<open>minijail_size\<close> above 65535 (a policy with the flag
  \<open>seccomp_filter\<close> and a program of 8178 instructions or more is one):
  \<^verbatim>\<open>minijail_to_fd\<close> into a pipe with enough room writes the size and the image and
  returns 0; \<^verbatim>\<open>minijail_unmarshal\<close> itself accepts that image; and \<^verbatim>\<open>minijail_from_fd\<close> on
  what was written returns \<^verbatim>\<open>-E2BIG\<close>, the image unread.
\<close>

theorem pipe_size_cap:
  "(8 \<le> length p \<and> USHRT_MAX < le_val (take 8 p) \<longrightarrow>
      minijail_from_fd p hr = (Failed (- E2BIG), drop 8 p)) \<and>
   (f_seccomp_filter (flags j) \<and> filter_prog j = Ptr a fp \<and> 8178 \<le> unat (fp_len fp) \<longrightarrow>
      USHRT_MAX < minijail_size j) \<and>
   (run_calls cs minijail_new = Some j \<and> (\<forall>c \<in> set cs. call_ok c) \<and>
    USHRT_MAX < minijail_size j \<and> minijail_size j < 2 ^ 64 \<and>
    fst (alloc hw) \<noteq> 0 \<and> 8 + minijail_size j \<le> room \<and>
    length (bindings j) < 2 ^ 31 \<and> plenty (5 + 3 * length (bindings j)) hr \<longrightarrow>
      minijail_to_fd j hw ([], room) =
        (Ok (), (le_bytes 8 (minijail_size j) @ fst (minijail_marshal j (minijail_size j)),
                 room - (8 + minijail_size j))) \<and>
      (\<exists>j'. minijail_unmarshal (fst (minijail_marshal j (minijail_size j))) hr = Ok j') \<and>
      minijail_from_fd
        (le_bytes 8 (minijail_size j) @ fst (minijail_marshal j (minijail_size j))) hr =
        (Failed (- E2BIG), fst (minijail_marshal j (minijail_size j))))"
proof (intro conjI impI)
  assume "8 \<le> length p \<and> USHRT_MAX < le_val (take 8 p)"
  then show "minijail_from_fd p hr = (Failed (- E2BIG), drop 8 p)"
    by (simp add: from_fd_too_big)
next
  assume "f_seccomp_filter (flags j) \<and> filter_prog j = Ptr a fp \<and> 8178 \<le> unat (fp_len fp)"
  then show "USHRT_MAX < minijail_size j"
    by (simp add: minijail_size_wire wire_size_def sizeof_minijail_def USHRT_MAX_def)
next
  assume a: "run_calls cs minijail_new = Some j \<and> (\<forall>c \<in> set cs. call_ok c) \<and>
    USHRT_MAX < minijail_size j \<and> minijail_size j < 2 ^ 64 \<and>
    fst (alloc hw) \<noteq> 0 \<and> 8 + minijail_size j \<le> room \<and>
    length (bindings j) < 2 ^ 31 \<and> plenty (5 + 3 * length (bindings j)) hr"
  then have wf: "wf_policy j"
    using run_calls_wf [OF _ _ wf_new] by blast
  note img = marshal_whole [OF wf]
  show "minijail_to_fd j hw ([], room) =
        (Ok (), (le_bytes 8 (minijail_size j) @ fst (minijail_marshal j (minijail_size j)),
                 room - (8 + minijail_size j)))"
    unfolding img using a to_fd_writes [OF wf] by blast
  show "\<exists>j'. minijail_unmarshal (fst (minijail_marshal j (minijail_size j))) hr = Ok j'"
    unfolding img using a unmarshal_serialization [OF wf] by blast
  have "le_val (take 8 (le_bytes 8 (minijail_size j) @ serialization j)) = minijail_size j"
    using a by (simp add: le_val_le_bytes)
  then show "minijail_from_fd
        (le_bytes 8 (minijail_size j) @ fst (minijail_marshal j (minijail_size j))) hr =
        (Failed (- E2BIG), fst (minijail_marshal j (minijail_size j)))"
    unfolding img using a
      from_fd_too_big [of "le_bytes 8 (minijail_size j) @ serialization j" hr]
    by simp
qed

theorem pipe_size_cap_witness:
  "\<exists>j. run_calls
       [Parse_seccomp_filters ''p'' True [64] (Some \<lparr>fp_len = 8178, fp_filter = big_array\<rparr>),
        Use_seccomp_filter] minijail_new = Some j \<and>
     minijail_size j = 65536 \<and>
     fst (minijail_to_fd j [1] ([], 70000)) = Ok () \<and>
     minijail_from_fd (fst (snd (minijail_to_fd j [1] ([], 70000)))) [2, 3, 4, 5, 6] =
       (Failed (- E2BIG), fst (minijail_marshal j 65536))"
proof -
  let ?cs = "[Parse_seccomp_filters ''p'' True [64]
                (Some \<lparr>fp_len = 8178, fp_filter = big_array\<rparr>), Use_seccomp_filter]"
  have len: "length big_array = 65424"
    by (simp add: big_array_def)
  obtain j where j: "run_calls ?cs minijail_new = Some j"
    and f: "f_seccomp_filter (flags j)"
      "filter_prog j = Ptr 64 \<lparr>fp_len = 8178, fp_filter = big_array\<rparr>"
      "bindings j = []" "user j = Null" "chrootdir j = Null" "chdir j = Null"
    by (simp add: minijail_parse_seccomp_filters_def minijail_use_seccomp_filter_def void_def
          alloc_def minijail_new_def)
  have ok: "\<forall>c \<in> set ?cs. call_ok c"
    by (simp add: len)
  have sz: "minijail_size j = 65536"
    using f by (simp add: minijail_size_wire wire_size_def sizeof_minijail_def)
  have hyp: "run_calls ?cs minijail_new = Some j \<and> (\<forall>c \<in> set ?cs. call_ok c) \<and>
    USHRT_MAX < minijail_size j \<and> minijail_size j < 2 ^ 64 \<and>
    fst (alloc [1]) \<noteq> 0 \<and> 8 + minijail_size j \<le> 70000 \<and>
    length (bindings j) < 2 ^ 31 \<and> plenty (5 + 3 * length (bindings j)) [2, 3, 4, 5, 6]"
    using j ok f(3) by (simp add: sz USHRT_MAX_def alloc_def plenty_def)
  from pipe_size_cap [where cs = ?cs and j = j and hw = "[1]" and room = 70000
      and hr = "[2, 3, 4, 5, 6]", THEN conjunct2, THEN conjunct2, rule_format, OF hyp]
  show ?thesis
    using j by (simp add: sz)
qed

subsection \<open>The path resolver\<close>

lemmas path_defs = replace_prefix_def poke_def buf_strlen_def strlen_def cstr_def NUL_def
  first_char_def concat_path_def strncpy_bytes_def snprintf_bytes_def strncmp_eq_def
  pick_binding_def size_sub_def size_add_def getcwd_def str_mem_def ptr_val_def peek_def
  Let_def

lemma two_bindings_built:
  "run_calls [Bind ''/x'' ''/a'' 0 [1, 2, 3], Bind ''/y'' ''/a/b'' 0 [4, 5, 6]] minijail_new =
     Some two_bindings"
  by (simp add: minijail_bind_def minijail_namespace_vfs_def alloc_def cstr_def NUL_def
        two_bindings_def minijail_new_def)

lemma replace_abc:
  "replace_prefix two_bindings None (replicate 16 (CHR ''#'')) ''/a/b/c'' =
     Some (0, ''/y//cc'' @ replicate 10 NUL)"
  by (simp add: path_defs two_bindings_def minijail_new_def)

lemma replace_ad:
  "replace_prefix two_bindings None (replicate 16 (CHR ''#'')) ''/a/d'' =
     Some (0, ''/x//d'' @ replicate 11 NUL)"
  by (simp add: path_defs two_bindings_def minijail_new_def)

text \<open>
  C6, on the code. With the bindings \<open>/x\<close> on \<open>/a\<close> and \<open>/y\<close> on \<open>/a/b\<close>, where
  \<open>/y/c\<close> and \<open>/x/d\<close> are regular files, and a stack with room for the call: for
  \<open>/a/b/c\<close> the buffer that \<^verbatim>\<open>minijail_get_path\<close> hands to \<^verbatim>\<open>lstat\<close> holds \<open>/y//cc\<close> (the
  moved tail is one byte shorter than the text it replaces and is not terminated), no
  such file exists, and the function returns 1; for \<open>/a/d\<close> it returns 0 with \<open>/x//d\<close>
  in the buffer.
\<close>

theorem longest_prefix_on_code:
  "minijail_get_path (Suc room) two_bindings (files [''/y/c'', ''/x/d''] []) None
     (replicate 16 (CHR ''#'')) ''/a/b/c'' =
     Path_ret 1 (''/y//cc'' @ replicate 10 NUL) \<and>
   minijail_get_path (Suc room) two_bindings (files [''/y/c'', ''/x/d''] []) None
     (replicate 16 (CHR ''#'')) ''/a/d'' =
     Path_ret 0 (''/x//d'' @ replicate 11 NUL)"
proof -
  have a: "resolve_step two_bindings (files [''/y/c'', ''/x/d''] []) None
             (replicate 16 (CHR ''#'')) ''/a/b/c'' =
           Done (Path_ret 1 (''/y//cc'' @ replicate 10 NUL))"
    by (simp add: resolve_step_def replace_abc files_def cstr_def NUL_def)
  have b: "resolve_step two_bindings (files [''/y/c'', ''/x/d''] []) None
             (replicate 16 (CHR ''#'')) ''/a/d'' =
           Done (Path_ret 0 (''/x//d'' @ replicate 11 NUL))"
    by (simp add: resolve_step_def replace_ad files_def cstr_def NUL_def)
  show ?thesis
    by (simp add: a b)
qed

subsection \<open>Chains of symbolic links\<close>













end
